theory Spec2Isabelle
  imports Complex_Main
begin

section \<open>Restaurant POS: the order, payment and shift handlers\<close>

text \<open>
  A shallow embedding of the Express route handlers of \<^verbatim>\<open>backend/routes/orderRoutes.js\<close>,
  \<^verbatim>\<open>backend/routes/paymentRoutes.js\<close> and \<^verbatim>\<open>backend/routes/shiftRoutes.js\<close> over the
  PostgreSQL schema of \<^verbatim>\<open>backend/init.sql\<close>.

  \<^item> The database is a record of tables, each table a list of rows in insertion order.
    Columns that no modelled handler reads (timestamps \<^verbatim>\<open>created_at\<close>, \<^verbatim>\<open>updated_at\<close>,
    \<^verbatim>\<open>order_date\<close>, \<^verbatim>\<open>payment_date\<close>, and the serial keys of \<^verbatim>\<open>order_items\<close>,
    \<^verbatim>\<open>order_discounts\<close> and \<^verbatim>\<open>payments\<close>) are left out.
  \<^item> A \<^verbatim>\<open>DECIMAL(10,2)\<close> column holds a whole number of cents (an \<open>int\<close>) of magnitude
    below \<open>10^10\<close>. A JavaScript number is an exact real: the binary rounding of IEEE
    doubles is not modelled. Storing a number in such a column rounds it to two decimal
    places, ties away from zero, as PostgreSQL's \<^verbatim>\<open>numeric\<close> does, and fails on overflow.
  \<^item> A handler takes the committed database and the request and returns the HTTP status
    it answers with and the database afterwards. The body of a
    \<^verbatim>\<open>BEGIN ... COMMIT\<close> block is a function into \<open>error + _\<close>; the handler's
    \<^verbatim>\<open>catch\<close> turns every error into \<^verbatim>\<open>ROLLBACK\<close> and status 500, that is, it returns
    the database it was given.
  \<^item> The \<^verbatim>\<open>auth\<close> and \<^verbatim>\<open>authorize\<close> middleware in front of the handlers is the identity
    collaborator and is not modelled: a handler is what runs after it has let the
    request through. Requests run one after the other.
  \<^item> A serial key takes the next value of its sequence. The values a rolled-back
    transaction has consumed are not modelled: a rollback restores the sequence too.
  \<^item> Request fields have the types the columns they feed expect: identifiers and
    quantities are integers, amounts are numbers, an optional field is an \<open>option\<close>.
    Strings are within the declared \<^verbatim>\<open>VARCHAR\<close> lengths.
\<close>

subsection \<open>Money\<close>

definition round_half_away :: "real \<Rightarrow> int" where
  "round_half_away x = (if 0 \<le> x then \<lfloor>x + 1 / 2\<rfloor> else - \<lfloor>- x + 1 / 2\<rfloor>)"

text \<open>The value a number takes when it is stored in a column of scale 2, in cents.\<close>

definition to_cents :: "real \<Rightarrow> int" where
  "to_cents x = round_half_away (x * 100)"

text \<open>The number the driver hands back for a stored value (\<^verbatim>\<open>"12.15"\<close> read as 12.15).\<close>

definition of_cents :: "int \<Rightarrow> real" where
  "of_cents c = of_int c / 100"

definition fits_10_2 :: "int \<Rightarrow> bool" where
  "fits_10_2 c = (\<bar>c\<bar> < 10 ^ 10)"

definition fits_int4 :: "int \<Rightarrow> bool" where
  "fits_int4 n = (- (2 ^ 31) \<le> n \<and> n < 2 ^ 31)"

datatype error =
    TypeError
  | MenuItemNotFound int
  | OrderNotFoundForPayment
  | NumericOverflow
  | NotNullViolation
  | CheckViolation
  | ForeignKeyViolation

datatype response = Ok200 | Created201 | BadRequest400 | NotFound404 | ServerError500

definition numeric_10_2 :: "real \<Rightarrow> error + int" where
  "numeric_10_2 x = (let c = to_cents x in if fits_10_2 c then Inr c else Inl NumericOverflow)"

text \<open>JavaScript's \<^verbatim>\<open>if (x)\<close> on an identifier that is a number or absent.\<close>

definition truthy :: "int option \<Rightarrow> bool" where
  "truthy x = (case x of None \<Rightarrow> False | Some n \<Rightarrow> n \<noteq> 0)"

text \<open>SQL's \<^verbatim>\<open>COALESCE($1, column)\<close>.\<close>

definition coalesce :: "'a option \<Rightarrow> 'a \<Rightarrow> 'a" where
  "coalesce x old = (case x of None \<Rightarrow> old | Some v \<Rightarrow> v)"

subsection \<open>The schema (init.sql)\<close>

record order_row =
  order_id :: int
  table_number :: "string option"
  status :: string
  total_amount :: int
  discount_amount :: int
  final_amount :: int
  cashier_id :: "int option"
  order_notes :: "string option"

record order_item_row =
  oi_order_id :: int
  oi_item_id :: int
  oi_item_name :: string
  oi_quantity :: int
  oi_unit_price :: int
  oi_item_total :: int
  oi_notes :: "string option"

record payment_row =
  p_order_id :: int
  p_payment_method :: string
  p_amount :: int
  p_transaction_id :: "string option"
  p_cashier_id :: "int option"
  p_notes :: "string option"

record discount_row =
  d_discount_id :: int
  d_discount_type :: string
  d_value :: int
  d_is_active :: "bool option"
  d_min_amount_threshold :: "int option"
  d_valid_from :: "int option"
  d_valid_until :: "int option"

record order_discount_row =
  od_order_id :: int
  od_discount_id :: int
  od_applied_value :: int
  od_applied_by_user_id :: "int option"

record shift_row =
  shift_id :: int
  user_id :: int
  shift_end :: "int option"
  opening_cash :: int
  closing_cash :: "int option"
  cash_in :: int
  cash_out :: int
  sales_amount_cash :: int
  sales_amount_card :: int
  shift_notes :: "string option"
  reconciled :: bool

record db =
  users :: "int list"
  menu_items :: "(int \<times> string) list"
  discounts :: "discount_row list"
  orders :: "order_row list"
  order_items :: "order_item_row list"
  order_discounts :: "order_discount_row list"
  payments :: "payment_row list"
  cashier_shifts :: "shift_row list"
  orders_seq :: int
  shifts_seq :: int

text \<open>
  \<open>users\<close> lists the \<^verbatim>\<open>user_id\<close>s and \<open>menu_items\<close> the pairs of \<^verbatim>\<open>item_id\<close> and
  \<^verbatim>\<open>item_name\<close>; \<open>orders_seq\<close> and \<open>shifts_seq\<close> are the last values of the two serial
  keys the handlers use. A foreign key into \<^verbatim>\<open>users\<close> accepts NULL.
\<close>

definition fk_users :: "db \<Rightarrow> int option \<Rightarrow> bool" where
  "fk_users s u = (case u of None \<Rightarrow> True | Some i \<Rightarrow> i \<in> set (users s))"

definition order_exists :: "db \<Rightarrow> int \<Rightarrow> bool" where
  "order_exists s oid = (oid \<in> set (map order_id (orders s)))"

definition get_order :: "db \<Rightarrow> int \<Rightarrow> order_row option" where
  "get_order s oid = find (\<lambda>ord. order_id ord = oid) (orders s)"

definition items_of :: "db \<Rightarrow> int \<Rightarrow> order_item_row list" where
  "items_of s oid = filter (\<lambda>r. oi_order_id r = oid) (order_items s)"

definition discounts_of :: "db \<Rightarrow> int \<Rightarrow> order_discount_row list" where
  "discounts_of s oid = filter (\<lambda>r. od_order_id r = oid) (order_discounts s)"

subsection \<open>orderRoutes.js\<close>

record item_req =
  item_id :: int
  quantity :: int
  unit_price :: real
  item_notes :: "string option"

text \<open>\<^verbatim>\<open>calculateOrderTotals\<close> (lines 10-16), on the quantity and unit price of each line.\<close>

definition calculateOrderTotals :: "(int \<times> real) list \<Rightarrow> real" where
  "calculateOrderTotals orderItems =
     foldl (\<lambda>totalAmount (q, p). totalAmount + of_int q * p) 0 orderItems"

record create_order_req =
  co_table_number :: "string option"
  co_cashier_id :: "int option"
  co_notes :: "string option"
  co_items :: "item_req list option"

text \<open>
  \<^verbatim>\<open>INSERT INTO orders (table_number, total_amount, final_amount, cashier_id, notes, status)\<close>:
  \<^verbatim>\<open>discount_amount\<close> takes its default 0.00.
\<close>

definition insert_order ::
  "db \<Rightarrow> string option \<Rightarrow> real \<Rightarrow> real \<Rightarrow> int option \<Rightarrow> string option \<Rightarrow> string
     \<Rightarrow> error + (int \<times> db)" where
  "insert_order s tn total_amt final_amt cashier nts st =
     (case numeric_10_2 total_amt of Inl e \<Rightarrow> Inl e | Inr t \<Rightarrow>
      (case numeric_10_2 final_amt of Inl e \<Rightarrow> Inl e | Inr f \<Rightarrow>
       if \<not> fk_users s cashier then Inl ForeignKeyViolation
       else
         let oid = orders_seq s + 1 in
         Inr (oid,
           s\<lparr>orders := orders s @
                [\<lparr>order_id = oid, table_number = tn, status = st, total_amount = t,
                  discount_amount = 0, final_amount = f, cashier_id = cashier, order_notes = nts\<rparr>],
             orders_seq := oid\<rparr>)))"

text \<open>
  \<^verbatim>\<open>INSERT INTO order_items (...)\<close> with the checks of the table: \<^verbatim>\<open>quantity INTEGER CHECK
  (quantity > 0)\<close>, \<^verbatim>\<open>unit_price DECIMAL(10,2) CHECK (unit_price >= 0)\<close>, and the foreign key
  to \<^verbatim>\<open>orders\<close>. The item exists in \<^verbatim>\<open>menu_items\<close>: the caller has just looked it up.
\<close>

definition stored_item :: "int \<Rightarrow> string \<Rightarrow> item_req \<Rightarrow> order_item_row" where
  "stored_item oid name item =
     \<lparr>oi_order_id = oid, oi_item_id = item_id item, oi_item_name = name,
      oi_quantity = quantity item, oi_unit_price = to_cents (unit_price item),
      oi_item_total = to_cents (of_int (quantity item) * unit_price item),
      oi_notes = item_notes item\<rparr>"

definition insert_order_item :: "db \<Rightarrow> int \<Rightarrow> item_req \<Rightarrow> string \<Rightarrow> error + db" where
  "insert_order_item w oid item name =
     (if \<not> fits_int4 (quantity item) then Inl NumericOverflow
      else
      (case numeric_10_2 (unit_price item) of Inl e \<Rightarrow> Inl e | Inr up \<Rightarrow>
      (case numeric_10_2 (of_int (quantity item) * unit_price item) of Inl e \<Rightarrow> Inl e | Inr tot \<Rightarrow>
       if \<not> (0 < quantity item \<and> 0 \<le> up) then Inl CheckViolation
       else if \<not> order_exists w oid then Inl ForeignKeyViolation
       else Inr (w\<lparr>order_items := order_items w @ [stored_item oid name item]\<rparr>))))"

text \<open>The loop of lines 34-43 (and of lines 137-147, which also adds up the total).\<close>

fun insert_items :: "db \<Rightarrow> int \<Rightarrow> item_req list \<Rightarrow> real \<Rightarrow> error + (db \<times> real)" where
  "insert_items w oid [] newTotalAmount = Inr (w, newTotalAmount)"
| "insert_items w oid (item # items) newTotalAmount =
     (case map_of (menu_items w) (item_id item) of
        None \<Rightarrow> Inl (MenuItemNotFound (item_id item))
      | Some name \<Rightarrow>
         (case insert_order_item w oid item name of
            Inl e \<Rightarrow> Inl e
          | Inr w' \<Rightarrow>
              insert_items w' oid items
                (newTotalAmount + of_int (quantity item) * unit_price item)))"

text \<open>\<^verbatim>\<open>POST /api/orders\<close> (lines 20-59): the body of the \<^verbatim>\<open>try\<close> block, then the handler.\<close>

definition createOrder_tx :: "db \<Rightarrow> create_order_req \<Rightarrow> error + (int \<times> db)" where
  "createOrder_tx s req =
     (case co_items req of
        None \<Rightarrow> Inl TypeError
      | Some items \<Rightarrow>
         let totalAmount = calculateOrderTotals (map (\<lambda>i. (quantity i, unit_price i)) items) in
         (case insert_order s (co_table_number req) totalAmount totalAmount
                 (co_cashier_id req) (co_notes req) ''pending'' of
            Inl e \<Rightarrow> Inl e
          | Inr (newOrderId, w) \<Rightarrow>
             (case insert_items w newOrderId items 0 of
                Inl e \<Rightarrow> Inl e
              | Inr (w', _) \<Rightarrow> Inr (newOrderId, w'))))"

definition createOrder :: "db \<Rightarrow> create_order_req \<Rightarrow> response \<times> db" where
  "createOrder s req =
     (case createOrder_tx s req of
        Inl e \<Rightarrow> (ServerError500, s)
      | Inr (newOrderId, w) \<Rightarrow> (Created201, w))"

text \<open>\<^verbatim>\<open>PUT /api/orders/:id/status\<close> (lines 106-122).\<close>

definition setOrderStatus :: "db \<Rightarrow> int \<Rightarrow> string \<Rightarrow> response \<times> db" where
  "setOrderStatus s oid st =
     (if \<not> order_exists s oid then (NotFound404, s)
      else (Ok200,
        s\<lparr>orders := map (\<lambda>ord. if order_id ord = oid then ord\<lparr>status := st\<rparr> else ord)
                       (orders s)\<rparr>))"

record update_order_req =
  uo_table_number :: "string option"
  uo_notes :: "string option"
  uo_items :: "item_req list option"
  uo_discount_id :: "int option"
  uo_applied_by_user_id :: "int option"

text \<open>
  Lines 134-151: \<^verbatim>\<open>if (items && items.length > 0)\<close> deletes the order's rows and inserts
  the new ones; otherwise the total is recomputed from the stored rows.
\<close>

definition replace_or_recompute ::
  "db \<Rightarrow> int \<Rightarrow> item_req list option \<Rightarrow> error + (db \<times> real)" where
  "replace_or_recompute s oid its =
     (case its of
        Some (item # items) \<Rightarrow>
          insert_items
            (s\<lparr>order_items := filter (\<lambda>r. oi_order_id r \<noteq> oid) (order_items s)\<rparr>)
            oid (item # items) 0
      | _ \<Rightarrow>
          Inr (s, calculateOrderTotals
                    (map (\<lambda>r. (oi_quantity r, of_cents (oi_unit_price r))) (items_of s oid))))"

text \<open>Lines 162-166: the amount of a discount row on a total.\<close>

definition discount_amount_for :: "real \<Rightarrow> discount_row \<Rightarrow> real" where
  "discount_amount_for newTotalAmount discount =
     (if d_discount_type discount = ''percentage''
        then newTotalAmount * (of_cents (d_value discount) / 100)
      else if d_discount_type discount = ''fixed_amount''
        then of_cents (d_value discount)
      else 0)"

text \<open>
  Line 159: \<^verbatim>\<open>SELECT * FROM discounts WHERE discount_id = $1 AND is_active = TRUE\<close>;
  \<^verbatim>\<open>discount_id\<close> is the primary key, so the first match is the only one.
\<close>

definition active_discount :: "db \<Rightarrow> int \<Rightarrow> discount_row option" where
  "active_discount s did =
     find (\<lambda>d. d_discount_id d = did \<and> d_is_active d = Some True) (discounts s)"

text \<open>
  Lines 169-172: \<^verbatim>\<open>INSERT INTO order_discounts\<close>, with \<^verbatim>\<open>applied_by_user_id || null\<close> and
  the foreign keys to \<^verbatim>\<open>orders\<close> and \<^verbatim>\<open>users\<close>.
\<close>

definition insert_order_discount :: "db \<Rightarrow> int \<Rightarrow> int \<Rightarrow> real \<Rightarrow> int option \<Rightarrow> error + db" where
  "insert_order_discount w oid did amount by_user =
     (case numeric_10_2 amount of Inl e \<Rightarrow> Inl e | Inr a \<Rightarrow>
      let u = (if truthy by_user then by_user else None) in
      if \<not> (order_exists w oid \<and> fk_users w u) then Inl ForeignKeyViolation
      else
        Inr (w\<lparr>order_discounts := order_discounts w @
               [\<lparr>od_order_id = oid, od_discount_id = did, od_applied_value = a,
                 od_applied_by_user_id = u\<rparr>]\<rparr>))"

text \<open>Lines 153-174; the result is the database, \<^verbatim>\<open>discount_amount\<close> and \<^verbatim>\<open>final_amount\<close>.\<close>

definition apply_discount ::
  "db \<Rightarrow> int \<Rightarrow> update_order_req \<Rightarrow> real \<Rightarrow> error + (db \<times> real \<times> real)" where
  "apply_discount w oid req newTotalAmount =
     (let w1 = w\<lparr>order_discounts := filter (\<lambda>r. od_order_id r \<noteq> oid) (order_discounts w)\<rparr> in
      case uo_discount_id req of
        None \<Rightarrow> Inr (w1, 0, newTotalAmount)
      | Some did \<Rightarrow>
         if did = 0 then Inr (w1, 0, newTotalAmount)
         else
           (case active_discount w1 did of
              None \<Rightarrow> Inr (w1, 0, newTotalAmount)
            | Some discount \<Rightarrow>
               let discountAmount = discount_amount_for newTotalAmount discount;
                   finalAmount = newTotalAmount - discountAmount in
               (case insert_order_discount w1 oid did discountAmount
                       (uo_applied_by_user_id req) of
                  Inl e \<Rightarrow> Inl e
                | Inr w2 \<Rightarrow> Inr (w2, discountAmount, finalAmount))))"

text \<open>
  Lines 176-187: \<^verbatim>\<open>UPDATE orders SET ... WHERE order_id = $6 RETURNING *\<close>. No row
  updated: \<^verbatim>\<open>ROLLBACK\<close> and 404, so the database is the committed one \<open>s\<close>.
\<close>

definition update_order_row ::
  "db \<Rightarrow> db \<Rightarrow> int \<Rightarrow> update_order_req \<Rightarrow> real \<Rightarrow> real \<Rightarrow> real \<Rightarrow> error + (response \<times> db)" where
  "update_order_row s w oid req newTotalAmount discountAmount finalAmount =
     (case numeric_10_2 newTotalAmount of Inl e \<Rightarrow> Inl e | Inr t \<Rightarrow>
      (case numeric_10_2 discountAmount of Inl e \<Rightarrow> Inl e | Inr d \<Rightarrow>
       (case numeric_10_2 finalAmount of Inl e \<Rightarrow> Inl e | Inr f \<Rightarrow>
        if \<not> order_exists w oid then Inr (NotFound404, s)
        else
          Inr (Ok200,
            w\<lparr>orders := map (\<lambda>ord.
                 if order_id ord = oid
                 then ord\<lparr>table_number := coalesce (map_option Some (uo_table_number req))
                                             (table_number ord),
                          order_notes := coalesce (map_option Some (uo_notes req)) (order_notes ord),
                          total_amount := t, discount_amount := d, final_amount := f\<rparr>
                 else ord) (orders w)\<rparr>))))"

text \<open>\<^verbatim>\<open>PUT /api/orders/:id\<close> (lines 126-200).\<close>

definition updateOrder_tx :: "db \<Rightarrow> int \<Rightarrow> update_order_req \<Rightarrow> error + (response \<times> db)" where
  "updateOrder_tx s oid req =
     (case replace_or_recompute s oid (uo_items req) of
        Inl e \<Rightarrow> Inl e
      | Inr (w, newTotalAmount) \<Rightarrow>
         (case apply_discount w oid req newTotalAmount of
            Inl e \<Rightarrow> Inl e
          | Inr (w', discountAmount, finalAmount) \<Rightarrow>
              update_order_row s w' oid req newTotalAmount discountAmount finalAmount))"

definition updateOrder :: "db \<Rightarrow> int \<Rightarrow> update_order_req \<Rightarrow> response \<times> db" where
  "updateOrder s oid req =
     (case updateOrder_tx s oid req of
        Inl e \<Rightarrow> (ServerError500, s)
      | Inr r \<Rightarrow> r)"

subsection \<open>paymentRoutes.js\<close>

record payment_req =
  pr_order_id :: int
  pr_payment_method :: string
  pr_amount :: real
  pr_transaction_id :: "string option"
  pr_cashier_id :: "int option"
  pr_notes :: "string option"

text \<open>
  The two versions of \<^verbatim>\<open>POST /api/payments\<close> differ in the connection that reads the
  order and the payment sum: the first version reads through the transaction's
  \<^verbatim>\<open>client\<close>, the version with the \<^verbatim>\<open>auth\<close> middleware through \<^verbatim>\<open>pool\<close>, that is, on
  another connection, which sees the committed rows only.
\<close>

datatype conn = Client | Pool

text \<open>
  \<^verbatim>\<open>INSERT INTO payments (...)\<close> with \<^verbatim>\<open>amount DECIMAL(10,2) CHECK (amount > 0)\<close> and the
  foreign keys to \<^verbatim>\<open>orders\<close> and \<^verbatim>\<open>users\<close>.
\<close>

definition stored_payment :: "payment_req \<Rightarrow> payment_row" where
  "stored_payment req =
     \<lparr>p_order_id = pr_order_id req, p_payment_method = pr_payment_method req,
      p_amount = to_cents (pr_amount req), p_transaction_id = pr_transaction_id req,
      p_cashier_id = pr_cashier_id req, p_notes = pr_notes req\<rparr>"

definition insert_payment :: "db \<Rightarrow> payment_req \<Rightarrow> error + db" where
  "insert_payment s req =
     (case numeric_10_2 (pr_amount req) of Inl e \<Rightarrow> Inl e | Inr a \<Rightarrow>
      if \<not> 0 < a then Inl CheckViolation
      else if \<not> (order_exists s (pr_order_id req) \<and> fk_users s (pr_cashier_id req))
        then Inl ForeignKeyViolation
      else Inr (s\<lparr>payments := payments s @ [stored_payment req]\<rparr>))"

definition lower_char :: "char \<Rightarrow> char" where
  "lower_char c =
     (case map_of (zip ''ABCDEFGHIJKLMNOPQRSTUVWXYZ'' ''abcdefghijklmnopqrstuvwxyz'') c of
        None \<Rightarrow> c
      | Some l \<Rightarrow> l)"

definition toLowerCase :: "string \<Rightarrow> string" where
  "toLowerCase str = map lower_char str"

text \<open>
  \<^verbatim>\<open>UPDATE cashier_shifts SET sales_amount_X = sales_amount_X + $1 WHERE user_id = $2 AND
  shift_end IS NULL\<close>, row by row; \<open>cash\<close> selects the column.
\<close>

fun add_sales :: "bool \<Rightarrow> real \<Rightarrow> int \<Rightarrow> shift_row list \<Rightarrow> error + shift_row list" where
  "add_sales cash amount uid [] = Inr []"
| "add_sales cash amount uid (sh # shs) =
     (if user_id sh = uid \<and> shift_end sh = None then
        (case numeric_10_2
                (of_cents (if cash then sales_amount_cash sh else sales_amount_card sh) + amount) of
           Inl e \<Rightarrow> Inl e
         | Inr v \<Rightarrow>
            (case add_sales cash amount uid shs of
               Inl e \<Rightarrow> Inl e
             | Inr shs' \<Rightarrow>
                 Inr ((if cash then sh\<lparr>sales_amount_cash := v\<rparr>
                       else sh\<lparr>sales_amount_card := v\<rparr>) # shs')))
      else
        (case add_sales cash amount uid shs of
           Inl e \<Rightarrow> Inl e
         | Inr shs' \<Rightarrow> Inr (sh # shs')))"

text \<open>Step 2 of the handler: \<^verbatim>\<open>if (cashier_id) { ... }\<close>.\<close>

definition update_shift_sales :: "db \<Rightarrow> payment_req \<Rightarrow> error + db" where
  "update_shift_sales w req =
     (case pr_cashier_id req of
        None \<Rightarrow> Inr w
      | Some uid \<Rightarrow>
         if uid = 0 then Inr w
         else
           (case add_sales (toLowerCase (pr_payment_method req) = ''cash'') (pr_amount req) uid
                   (cashier_shifts w) of
              Inl e \<Rightarrow> Inl e
            | Inr shs \<Rightarrow> Inr (w\<lparr>cashier_shifts := shs\<rparr>)))"

definition sum_payments :: "db \<Rightarrow> int \<Rightarrow> int" where
  "sum_payments s oid = sum_list (map p_amount (filter (\<lambda>p. p_order_id p = oid) (payments s)))"

text \<open>
  Step 3: the order's \<^verbatim>\<open>final_amount\<close> and \<^verbatim>\<open>SUM(amount)\<close> are read from \<open>r\<close> (the
  database as the reading connection sees it), and the status is written to \<open>w\<close>.
\<close>

definition complete_if_paid :: "db \<Rightarrow> db \<Rightarrow> int \<Rightarrow> error + db" where
  "complete_if_paid r w oid =
     (case get_order r oid of
        None \<Rightarrow> Inl OrderNotFoundForPayment
      | Some ord \<Rightarrow>
         let orderFinalAmount = of_cents (final_amount ord);
             totalPaid = of_cents (sum_payments r oid) in
         if totalPaid \<ge> orderFinalAmount
         then Inr (w\<lparr>orders := map (\<lambda>x. if order_id x = oid
                                          then x\<lparr>status := ''completed''\<rparr> else x) (orders w)\<rparr>)
         else Inr w)"

definition recordPayment_tx :: "conn \<Rightarrow> db \<Rightarrow> payment_req \<Rightarrow> error + db" where
  "recordPayment_tx c s req =
     (case insert_payment s req of
        Inl e \<Rightarrow> Inl e
      | Inr w1 \<Rightarrow>
         (case update_shift_sales w1 req of
            Inl e \<Rightarrow> Inl e
          | Inr w2 \<Rightarrow>
              complete_if_paid (case c of Client \<Rightarrow> w2 | Pool \<Rightarrow> s) w2 (pr_order_id req)))"

definition recordPayment :: "conn \<Rightarrow> db \<Rightarrow> payment_req \<Rightarrow> response \<times> db" where
  "recordPayment c s req =
     (case recordPayment_tx c s req of
        Inl e \<Rightarrow> (ServerError500, s)
      | Inr w \<Rightarrow> (Created201, w))"

subsection \<open>shiftRoutes.js\<close>

definition active_shifts :: "db \<Rightarrow> int \<Rightarrow> shift_row list" where
  "active_shifts s uid =
     filter (\<lambda>sh. user_id sh = uid \<and> shift_end sh = None) (cashier_shifts s)"

text \<open>
  \<^verbatim>\<open>INSERT INTO cashier_shifts (user_id, opening_cash) VALUES ($1, $2)\<close>: the other columns
  take their defaults; \<^verbatim>\<open>opening_cash\<close> is \<^verbatim>\<open>NOT NULL\<close>.
\<close>

definition insert_shift :: "db \<Rightarrow> int \<Rightarrow> real option \<Rightarrow> error + db" where
  "insert_shift s uid openingCash =
     (case openingCash of
        None \<Rightarrow> Inl NotNullViolation
      | Some x \<Rightarrow>
         (case numeric_10_2 x of Inl e \<Rightarrow> Inl e | Inr c \<Rightarrow>
          if uid \<notin> set (users s) then Inl ForeignKeyViolation
          else
            let sid = shifts_seq s + 1 in
            Inr (s\<lparr>cashier_shifts := cashier_shifts s @
                   [\<lparr>shift_id = sid, user_id = uid, shift_end = None, opening_cash = c,
                     closing_cash = None, cash_in = 0, cash_out = 0, sales_amount_cash = 0,
                     sales_amount_card = 0, shift_notes = None, reconciled = False\<rparr>],
                  shifts_seq := sid\<rparr>)))"

text \<open>\<^verbatim>\<open>POST /api/shifts/start\<close> (lines 10-31).\<close>

definition startShift :: "db \<Rightarrow> int \<Rightarrow> real option \<Rightarrow> response \<times> db" where
  "startShift s uid openingCash =
     (if active_shifts s uid \<noteq> [] then (BadRequest400, s)
      else
        (case insert_shift s uid openingCash of
           Inl e \<Rightarrow> (ServerError500, s)
         | Inr w \<Rightarrow> (Created201, w)))"

definition numeric_opt :: "real option \<Rightarrow> error + int option" where
  "numeric_opt x =
     (case x of
        None \<Rightarrow> Inr None
      | Some v \<Rightarrow> (case numeric_10_2 v of Inl e \<Rightarrow> Inl e | Inr c \<Rightarrow> Inr (Some c)))"

text \<open>\<^verbatim>\<open>PUT /api/shifts/end/:id\<close> (lines 35-54); \<open>now\<close> is \<^verbatim>\<open>CURRENT_TIMESTAMP\<close>.\<close>

definition endShift :: "db \<Rightarrow> int \<Rightarrow> real option \<Rightarrow> string option \<Rightarrow> int \<Rightarrow> response \<times> db" where
  "endShift s sid closingCash nts now =
     (case numeric_opt closingCash of
        Inl e \<Rightarrow> (ServerError500, s)
      | Inr cc \<Rightarrow>
         if filter (\<lambda>sh. shift_id sh = sid \<and> shift_end sh = None) (cashier_shifts s) = []
         then (NotFound404, s)
         else (Ok200,
           s\<lparr>cashier_shifts := map (\<lambda>sh.
                if shift_id sh = sid \<and> shift_end sh = None
                then sh\<lparr>shift_end := Some now, closing_cash := cc, shift_notes := nts\<rparr>
                else sh) (cashier_shifts s)\<rparr>))"

record adjust_shift_req =
  as_opening_cash :: "real option"
  as_closing_cash :: "real option"
  as_cash_in :: "real option"
  as_cash_out :: "real option"
  as_reconciled :: "bool option"
  as_notes :: "string option"

text \<open>\<^verbatim>\<open>PUT /api/shifts/:id\<close> (lines 111-129): every column is \<^verbatim>\<open>COALESCE($n, column)\<close>.\<close>

definition adjustShift :: "db \<Rightarrow> int \<Rightarrow> adjust_shift_req \<Rightarrow> response \<times> db" where
  "adjustShift s sid req =
     (case numeric_opt (as_opening_cash req) of Inl e \<Rightarrow> (ServerError500, s) | Inr oc \<Rightarrow>
      (case numeric_opt (as_closing_cash req) of Inl e \<Rightarrow> (ServerError500, s) | Inr cc \<Rightarrow>
       (case numeric_opt (as_cash_in req) of Inl e \<Rightarrow> (ServerError500, s) | Inr ci \<Rightarrow>
        (case numeric_opt (as_cash_out req) of Inl e \<Rightarrow> (ServerError500, s) | Inr co \<Rightarrow>
         if filter (\<lambda>sh. shift_id sh = sid) (cashier_shifts s) = [] then (NotFound404, s)
         else (Ok200,
           s\<lparr>cashier_shifts := map (\<lambda>sh.
                if shift_id sh = sid
                then sh\<lparr>opening_cash := coalesce oc (opening_cash sh),
                        closing_cash := coalesce (map_option Some cc) (closing_cash sh),
                        cash_in := coalesce ci (cash_in sh),
                        cash_out := coalesce co (cash_out sh),
                        reconciled := coalesce (as_reconciled req) (reconciled sh),
                        shift_notes := coalesce (map_option Some (as_notes req)) (shift_notes sh)\<rparr>
                else sh) (cashier_shifts s)\<rparr>)))))"

subsection \<open>Sequences of requests\<close>

datatype op =
    CreateOrder create_order_req
  | UpdateOrder int update_order_req
  | SetOrderStatus int string
  | RecordPayment conn payment_req
  | StartShift int "real option"
  | EndShift int "real option" "string option" int
  | AdjustShift int adjust_shift_req

fun step :: "db \<Rightarrow> op \<Rightarrow> db" where
  "step s (CreateOrder req) = snd (createOrder s req)"
| "step s (UpdateOrder oid req) = snd (updateOrder s oid req)"
| "step s (SetOrderStatus oid st) = snd (setOrderStatus s oid st)"
| "step s (RecordPayment c req) = snd (recordPayment c s req)"
| "step s (StartShift uid openingCash) = snd (startShift s uid openingCash)"
| "step s (EndShift sid closingCash nts now) = snd (endShift s sid closingCash nts now)"
| "step s (AdjustShift sid req) = snd (adjustShift s sid req)"

definition run :: "db \<Rightarrow> op list \<Rightarrow> db" where
  "run s ops = foldl step s ops"

text \<open>
  A database with users 1 and 2, three menu items and four discounts, and no order,
  payment or shift yet; the states used as concrete inputs below are reached from it.
\<close>

definition discount_pct10 :: discount_row where
  "discount_pct10 =
     \<lparr>d_discount_id = 1, d_discount_type = ''percentage'', d_value = 1000,
      d_is_active = Some True, d_min_amount_threshold = None, d_valid_from = None,
      d_valid_until = None\<rparr>"

definition discount_fixed20 :: discount_row where
  "discount_fixed20 =
     \<lparr>d_discount_id = 3, d_discount_type = ''fixed_amount'', d_value = 2000,
      d_is_active = Some True, d_min_amount_threshold = None, d_valid_from = None,
      d_valid_until = None\<rparr>"

definition discount_inactive :: discount_row where
  "discount_inactive =
     \<lparr>d_discount_id = 4, d_discount_type = ''percentage'', d_value = 5000,
      d_is_active = Some False, d_min_amount_threshold = None, d_valid_from = None,
      d_valid_until = None\<rparr>"

text \<open>
  Discount 5 is active, asks for an order of at least 100.00 and is valid from time 100
  to time 200 only.
\<close>

definition discount_restricted :: discount_row where
  "discount_restricted =
     \<lparr>d_discount_id = 5, d_discount_type = ''percentage'', d_value = 1000,
      d_is_active = Some True, d_min_amount_threshold = Some 10000, d_valid_from = Some 100,
      d_valid_until = Some 200\<rparr>"

definition db0 :: db where
  "db0 =
     \<lparr>users = [1, 2],
      menu_items = [(1, ''Latte''), (2, ''Bagel''), (3, ''Soup'')],
      discounts = [discount_pct10, discount_fixed20, discount_inactive, discount_restricted],
      orders = [], order_items = [], order_discounts = [], payments = [],
      cashier_shifts = [], orders_seq = 0, shifts_seq = 0\<rparr>"

definition item :: "int \<Rightarrow> int \<Rightarrow> real \<Rightarrow> item_req" where
  "item i q p = \<lparr>item_id = i, quantity = q, unit_price = p, item_notes = None\<rparr>"

definition order_req :: "item_req list \<Rightarrow> create_order_req" where
  "order_req its =
     \<lparr>co_table_number = Some ''7'', co_cashier_id = Some 1, co_notes = None,
      co_items = Some its\<rparr>"

definition update_req :: "item_req list option \<Rightarrow> int option \<Rightarrow> update_order_req" where
  "update_req its did =
     \<lparr>uo_table_number = None, uo_notes = None, uo_items = its, uo_discount_id = did,
      uo_applied_by_user_id = Some 2\<rparr>"

definition pay_req :: "int \<Rightarrow> string \<Rightarrow> real \<Rightarrow> int option \<Rightarrow> payment_req" where
  "pay_req oid m a c =
     \<lparr>pr_order_id = oid, pr_payment_method = m, pr_amount = a, pr_transaction_id = None,
      pr_cashier_id = c, pr_notes = None\<rparr>"

subsection \<open>Notions used in the statements\<close>

text \<open>The \<^verbatim>\<open>order_items\<close> rows that the insertion loop writes for the requested lines.\<close>

definition new_item_rows :: "db \<Rightarrow> int \<Rightarrow> item_req list \<Rightarrow> order_item_row list" where
  "new_item_rows s oid its =
     map (\<lambda>it. stored_item oid (the (map_of (menu_items s) (item_id it))) it) its"

text \<open>The total of the requested lines and the total recomputed from the stored rows of an order, both before rounding.\<close>

definition request_total :: "item_req list \<Rightarrow> real" where
  "request_total its = calculateOrderTotals (map (\<lambda>i. (quantity i, unit_price i)) its)"

definition stored_total :: "db \<Rightarrow> int \<Rightarrow> real" where
  "stored_total s oid =
     calculateOrderTotals (map (\<lambda>r. (oi_quantity r, of_cents (oi_unit_price r))) (items_of s oid))"

text \<open>The discount row an update applies: the request names it and it is active.\<close>

definition applicable :: "db \<Rightarrow> update_order_req \<Rightarrow> discount_row option" where
  "applicable s req =
     (case uo_discount_id req of
        None \<Rightarrow> None
      | Some did \<Rightarrow> if did = 0 then None else active_discount s did)"

text \<open>The \<^verbatim>\<open>orders\<close> row after an update that computed total \<open>T\<close> and discount \<open>D\<close>.\<close>

definition updated_order :: "update_order_req \<Rightarrow> real \<Rightarrow> real \<Rightarrow> order_row \<Rightarrow> order_row" where
  "updated_order req T D ord =
     ord\<lparr>table_number := coalesce (map_option Some (uo_table_number req)) (table_number ord),
         order_notes := coalesce (map_option Some (uo_notes req)) (order_notes ord),
         total_amount := to_cents T, discount_amount := to_cents D,
         final_amount := to_cents (T - D)\<rparr>"


definition resolves :: "db \<Rightarrow> item_req \<Rightarrow> bool" where
  "resolves s = (\<lambda>it. map_of (menu_items s) (item_id it) \<noteq> None)"

text \<open>The effect of the shift update on one row, and the same with the amount added in whole cents.\<close>

definition bump_sales :: "bool \<Rightarrow> real \<Rightarrow> int \<Rightarrow> shift_row \<Rightarrow> shift_row" where
  "bump_sales cash amount uid sh =
     (if user_id sh = uid \<and> shift_end sh = None then
        (if cash
         then sh\<lparr>sales_amount_cash := to_cents (of_cents (sales_amount_cash sh) + amount)\<rparr>
         else sh\<lparr>sales_amount_card := to_cents (of_cents (sales_amount_card sh) + amount)\<rparr>)
      else sh)"

definition credit_sales :: "bool \<Rightarrow> int \<Rightarrow> int \<Rightarrow> shift_row \<Rightarrow> shift_row" where
  "credit_sales cash cents uid sh =
     (if user_id sh = uid \<and> shift_end sh = None then
        (if cash then sh\<lparr>sales_amount_cash := sales_amount_cash sh + cents\<rparr>
         else sh\<lparr>sales_amount_card := sales_amount_card sh + cents\<rparr>)
      else sh)"

text \<open>The status update of the completion check on one row.\<close>

definition mark_completed :: "int \<Rightarrow> order_row \<Rightarrow> order_row" where
  "mark_completed oid ord = (if order_id ord = oid then ord\<lparr>status := ''completed''\<rparr> else ord)"

text \<open>No running sales total is negative.\<close>

definition sales_nonneg :: "db \<Rightarrow> bool" where
  "sales_nonneg s =
     list_all (\<lambda>sh. 0 \<le> sales_amount_cash sh \<and> 0 \<le> sales_amount_card sh) (cashier_shifts s)"

text \<open>The users of the active shift rows are pairwise distinct; \<open>shift_keys\<close> is what that depends on.\<close>

definition single_active_shift :: "db \<Rightarrow> bool" where
  "single_active_shift s =
     distinct (map user_id (filter (\<lambda>sh. shift_end sh = None) (cashier_shifts s)))"

definition shift_keys :: "db \<Rightarrow> (int \<times> int option) list" where
  "shift_keys s = map (\<lambda>sh. (user_id sh, shift_end sh)) (cashier_shifts s)"

subsection \<open>Concrete states\<close>

text \<open>
  The states used as concrete inputs, each reached from \<open>db0\<close> by requests. \<open>db1\<close> is
  Scenario A of the specification, one order of 2 x 5.00 and 1 x 3.50; \<open>dbF\<close> is
  Scenario F, one order of 1 x 15.00; \<open>dbR\<close> holds one order of 1 x 12.25; in \<open>db2\<close> the order of \<open>db1\<close> has been paid in full
  by card (so it is completed) and then updated to 2 x 10.00; in \<open>db3\<close> user 1 is on a
  shift opened with 100.00.
\<close>

definition db1 :: db where
  "db1 = run db0 [CreateOrder (order_req [item 1 2 5, item 2 1 (7 / 2)])]"


definition dbR :: db where
  "dbR = run db0 [CreateOrder (order_req [item 3 1 (49 / 4)])]"

definition db2 :: db where
  "db2 = run db1 [RecordPayment Client (pay_req 1 ''card'' (27 / 2) None),
                  UpdateOrder 1 (update_req (Some [item 3 2 10]) None)]"

definition db3 :: db where
  "db3 = run db1 [StartShift 1 (Some 100)]"

section \<open>Properties\<close>

subsection \<open>Rounding and totals\<close>

lemma to_cents_of_cents [simp]: "to_cents (of_cents c) = c"
  by (simp add: to_cents_def of_cents_def round_half_away_def)

lemma to_cents_add_nonneg: "0 \<le> c \<Longrightarrow> 0 \<le> a \<Longrightarrow> to_cents (of_cents c + a) = c + to_cents a"
proof -
  assume c: "0 \<le> c" and a: "0 \<le> a"
  have "(of_cents c + a) * 100 + 1 / 2 = of_int c + (a * 100 + 1 / 2)"
    by (simp add: of_cents_def algebra_simps)
  moreover have "\<lfloor>real_of_int c + (a * 100 + 1 / 2)\<rfloor> = c + \<lfloor>a * 100 + 1 / 2\<rfloor>"
    using int_add_floor [of c "a * 100 + 1 / 2"] by simp
  ultimately have "\<lfloor>(of_cents c + a) * 100 + 1 / 2\<rfloor> = c + \<lfloor>a * 100 + 1 / 2\<rfloor>"
    by (simp only:)
  moreover have "0 \<le> (of_cents c + a) * 100" using c a by (simp add: of_cents_def)
  moreover have "0 \<le> a * 100" using a by simp
  ultimately show ?thesis by (simp add: to_cents_def round_half_away_def)
qed

lemma to_cents_nonpos: "x \<le> 0 \<Longrightarrow> to_cents x \<le> 0"
  by (auto simp: to_cents_def round_half_away_def)

lemma to_cents_nonneg: "0 \<le> x \<Longrightarrow> 0 \<le> to_cents x"
  by (auto simp: to_cents_def round_half_away_def)

lemma numeric_10_2_Inr: "numeric_10_2 x = Inr c \<longleftrightarrow> c = to_cents x \<and> fits_10_2 c"
  by (auto simp: numeric_10_2_def Let_def)

lemma calculateOrderTotals_acc:
  "foldl (\<lambda>totalAmount (q, p). totalAmount + of_int q * p) a xs =
   a + calculateOrderTotals xs"
  unfolding calculateOrderTotals_def
proof (induction xs arbitrary: a)
  case Nil show ?case by simp
next
  case (Cons x xs)
  show ?case
    by (cases x) (simp add: Cons.IH [of "a + _"] Cons.IH [of "0 + _"] del: add_0)
qed

lemma calculateOrderTotals_Nil [simp]: "calculateOrderTotals [] = 0"
  by (simp add: calculateOrderTotals_def)

lemma calculateOrderTotals_Cons [simp]:
  "calculateOrderTotals ((q, p) # xs) = of_int q * p + calculateOrderTotals xs"
  using calculateOrderTotals_acc [of "of_int q * p" xs]
  by (simp add: calculateOrderTotals_def)

lemma calculateOrderTotals_sum:
  "calculateOrderTotals xs = sum_list (map (\<lambda>(q, p). of_int q * p) xs)"
  by (induction xs) auto

lemma insert_order_item_Inr:
  "insert_order_item w oid it name = Inr w' \<Longrightarrow>
   w' = w\<lparr>order_items := order_items w @ [stored_item oid name it]\<rparr>"
  by (auto simp: insert_order_item_def split: if_splits sum.splits)

lemma insert_items_Inr:
  "insert_items w oid its acc = Inr (w', T) \<Longrightarrow>
     w' = w\<lparr>order_items := order_items w @
            map (\<lambda>it. stored_item oid (the (map_of (menu_items w) (item_id it))) it) its\<rparr>
     \<and> T = acc + calculateOrderTotals (map (\<lambda>i. (quantity i, unit_price i)) its)
     \<and> list_all (\<lambda>it. map_of (menu_items w) (item_id it) \<noteq> None) its"
proof (induction its arbitrary: w acc)
  case Nil
  then show ?case by simp
next
  case (Cons it its)
  from Cons.prems obtain name w1 where
    n: "map_of (menu_items w) (item_id it) = Some name" and
    i: "insert_order_item w oid it name = Inr w1" and
    r: "insert_items w1 oid its (acc + of_int (quantity it) * unit_price it) = Inr (w', T)"
    by (auto split: option.splits sum.splits)
  from insert_order_item_Inr [OF i] have w1: "w1 = w\<lparr>order_items := order_items w @ [stored_item oid name it]\<rparr>" .
  from Cons.IH [OF r] show ?case
    by (simp add: w1 n)
qed

subsection \<open>What a successful order update writes\<close>

lemma replace_or_recompute_Inr:
  assumes "replace_or_recompute s oid its = Inr (w, T)"
  shows "(case its of
            Some (i # is) \<Rightarrow>
              w = s\<lparr>order_items := filter (\<lambda>r. oi_order_id r \<noteq> oid) (order_items s) @
                                    new_item_rows s oid (i # is)\<rparr>
              \<and> T = request_total (i # is)
          | _ \<Rightarrow> w = s \<and> T = stored_total s oid)"
proof (cases its)
  case None
  with assms show ?thesis by (auto simp: replace_or_recompute_def stored_total_def)
next
  case (Some l)
  show ?thesis
  proof (cases l)
    case Nil
    with Some assms show ?thesis by (auto simp: replace_or_recompute_def stored_total_def)
  next
    case (Cons i "is")
    with Some assms have
      "insert_items (s\<lparr>order_items := filter (\<lambda>r. oi_order_id r \<noteq> oid) (order_items s)\<rparr>)
         oid (i # is) 0 = Inr (w, T)"
      by (simp add: replace_or_recompute_def)
    from insert_items_Inr [OF this] show ?thesis
      by (simp add: Some Cons new_item_rows_def request_total_def)
  qed
qed

lemma find_SomeD: "find P xs = Some x \<Longrightarrow> P x \<and> x \<in> set xs"
  by (auto simp: find_Some_iff)

lemma apply_discount_Inr:
  assumes "apply_discount w oid req T = Inr (w', D, F)"
  shows "F = T - D \<and>
     (case applicable w req of
        None \<Rightarrow> D = 0 \<and>
          w' = w\<lparr>order_discounts := filter (\<lambda>r. od_order_id r \<noteq> oid) (order_discounts w)\<rparr>
      | Some d \<Rightarrow> D = discount_amount_for T d \<and>
          w' = w\<lparr>order_discounts := filter (\<lambda>r. od_order_id r \<noteq> oid) (order_discounts w) @
                  [\<lparr>od_order_id = oid, od_discount_id = d_discount_id d,
                    od_applied_value = to_cents D,
                    od_applied_by_user_id =
                      (if truthy (uo_applied_by_user_id req) then uo_applied_by_user_id req
                       else None)\<rparr>]\<rparr>)"
  using assms
  by (auto simp: apply_discount_def applicable_def active_discount_def insert_order_discount_def
        numeric_10_2_Inr Let_def
      split: option.splits if_splits sum.splits dest: find_SomeD)

lemma get_order_map:
  assumes "\<And>ord. order_id (f ord) = order_id ord"
  shows "find (\<lambda>ord. order_id ord = oid)
           (map (\<lambda>ord. if order_id ord = oid then f ord else ord) xs) =
         map_option f (find (\<lambda>ord. order_id ord = oid) xs)"
  by (induction xs) (auto simp: assms)

lemma order_exists_iff: "order_exists s oid \<longleftrightarrow> get_order s oid \<noteq> None"
  by (auto simp: order_exists_def get_order_def find_None_iff)

lemma update_order_row_Ok:
  assumes "update_order_row s w oid req T D (T - D) = Inr (Ok200, s')"
  shows "order_exists w oid \<and>
     s' = w\<lparr>orders := map (\<lambda>ord. if order_id ord = oid then updated_order req T D ord
                                     else ord) (orders w)\<rparr>"
  using assms
  by (auto simp: update_order_row_def numeric_10_2_Inr updated_order_def
      split: sum.splits if_splits)

lemma updateOrder_Ok:
  assumes "updateOrder s oid req = (Ok200, s')"
  shows "\<exists>w T D w' ord.
     replace_or_recompute s oid (uo_items req) = Inr (w, T) \<and>
     apply_discount w oid req T = Inr (w', D, T - D) \<and>
     get_order s oid = Some ord \<and>
     get_order s' oid = Some (updated_order req T D ord) \<and>
     order_items s' = order_items w \<and> order_discounts s' = order_discounts w'"
proof -
  from assms obtain w T w' D F where
    r: "replace_or_recompute s oid (uo_items req) = Inr (w, T)" and
    a: "apply_discount w oid req T = Inr (w', D, F)" and
    u: "update_order_row s w' oid req T D F = Inr (Ok200, s')"
    by (auto simp: updateOrder_def updateOrder_tx_def split: sum.splits)
  from apply_discount_Inr [OF a] have F: "F = T - D" and ow': "orders w' = orders w"
    and iw': "order_items w' = order_items w"
    by (auto split: option.splits)
  from replace_or_recompute_Inr [OF r] have ow: "orders w = orders s"
    by (auto split: option.splits list.splits)
  from update_order_row_Ok [OF u [unfolded F]] have ex: "order_exists w' oid" and
    s': "s' = w'\<lparr>orders := map (\<lambda>ord. if order_id ord = oid then updated_order req T D ord
                                         else ord) (orders w')\<rparr>"
    by auto
  from ex obtain ord where g: "get_order s oid = Some ord"
    by (auto simp: order_exists_iff get_order_def ow ow')
  have "get_order s' oid = Some (updated_order req T D ord)"
    using g
    by (simp add: s' get_order_def ow ow'
          get_order_map [where f = "updated_order req T D"] updated_order_def)
  with r a g show ?thesis
    by (auto simp: F s' iw')
qed

subsection \<open>Evaluating the handlers on concrete states\<close>

lemmas money_defs =
  numeric_10_2_def to_cents_def of_cents_def round_half_away_def fits_10_2_def fits_int4_def

lemmas sample_defs =
  db0_def item_def order_req_def update_req_def pay_req_def discount_pct10_def
  discount_fixed20_def discount_inactive_def discount_restricted_def

lemmas order_defs =
  createOrder_def createOrder_tx_def insert_order_def insert_order_item_def stored_item_def
  calculateOrderTotals_def fk_users_def order_exists_def get_order_def items_of_def
  updateOrder_def updateOrder_tx_def replace_or_recompute_def apply_discount_def
  active_discount_def insert_order_discount_def update_order_row_def discount_amount_for_def
  truthy_def coalesce_def setOrderStatus_def

lemma db1_eq:
  "db1 =
     db0\<lparr>orders :=
           [\<lparr>order_id = 1, table_number = Some ''7'', status = ''pending'',
             total_amount = 1350, discount_amount = 0, final_amount = 1350,
             cashier_id = Some 1, order_notes = None\<rparr>],
         order_items :=
           [\<lparr>oi_order_id = 1, oi_item_id = 1, oi_item_name = ''Latte'', oi_quantity = 2,
             oi_unit_price = 500, oi_item_total = 1000, oi_notes = None\<rparr>,
            \<lparr>oi_order_id = 1, oi_item_id = 2, oi_item_name = ''Bagel'', oi_quantity = 1,
             oi_unit_price = 350, oi_item_total = 350, oi_notes = None\<rparr>],
         orders_seq := 1\<rparr>"
  by (simp add: db1_def run_def order_defs money_defs sample_defs)

lemma apply_discount_items [simp]:
  "apply_discount w oid (req\<lparr>uo_items := x\<rparr>) T = apply_discount w oid req T"
  by (simp add: apply_discount_def Let_def cong: option.case_cong sum.case_cong if_cong)

lemma update_order_row_items [simp]:
  "update_order_row s w oid (req\<lparr>uo_items := x\<rparr>) T D F = update_order_row s w oid req T D F"
  by (simp add: update_order_row_def cong: option.case_cong sum.case_cong if_cong)

text \<open>
  C10. An update whose \<open>items\<close> is the empty array behaves exactly as one without
  \<open>items\<close>: the handler answers the same and leaves the same database, the stored
  \<^verbatim>\<open>order_items\<close> rows are untouched, and the order's \<^verbatim>\<open>total_amount\<close> is recomputed
  from the stored rows. Only a non-empty array replaces the order's rows by the new ones.
\<close>

theorem updateOrder_empty_items_as_omitted:
  "updateOrder s oid (req\<lparr>uo_items := Some []\<rparr>) = updateOrder s oid (req\<lparr>uo_items := None\<rparr>)
   \<and> order_items (snd (updateOrder s oid (req\<lparr>uo_items := Some []\<rparr>))) = order_items s
   \<and> (fst (updateOrder s oid (req\<lparr>uo_items := Some []\<rparr>)) = Ok200 \<longrightarrow>
        map_option total_amount (get_order (snd (updateOrder s oid (req\<lparr>uo_items := Some []\<rparr>))) oid)
          = Some (to_cents (stored_total s oid)))
   \<and> (its \<noteq> [] \<and> fst (updateOrder s oid (req\<lparr>uo_items := Some its\<rparr>)) = Ok200 \<longrightarrow>
        items_of (snd (updateOrder s oid (req\<lparr>uo_items := Some its\<rparr>))) oid
          = new_item_rows s oid its)"
proof (intro conjI impI)
  show "updateOrder s oid (req\<lparr>uo_items := Some []\<rparr>) = updateOrder s oid (req\<lparr>uo_items := None\<rparr>)"
    by (simp add: updateOrder_def updateOrder_tx_def replace_or_recompute_def
          cong: sum.case_cong prod.case_cong)
next
  let ?r = "req\<lparr>uo_items := Some []\<rparr>"
  show "order_items (snd (updateOrder s oid ?r)) = order_items s"
  proof (cases "fst (updateOrder s oid ?r) = Ok200")
    case True
    then have "updateOrder s oid ?r = (Ok200, snd (updateOrder s oid ?r))"
      by (metis prod.collapse)
    from updateOrder_Ok [OF this] obtain w T where
      "replace_or_recompute s oid (Some []) = Inr (w, T)"
      "order_items (snd (updateOrder s oid ?r)) = order_items w"
      by auto
    then show ?thesis by (auto dest: replace_or_recompute_Inr)
  next
    case False
    then show ?thesis
      by (auto simp: updateOrder_def updateOrder_tx_def update_order_row_def
          split: sum.splits if_splits)
  qed
next
  let ?r = "req\<lparr>uo_items := Some []\<rparr>"
  assume "fst (updateOrder s oid ?r) = Ok200"
  then have "updateOrder s oid ?r = (Ok200, snd (updateOrder s oid ?r))"
    by (metis prod.collapse)
  from updateOrder_Ok [OF this] obtain w T D ord where
    r: "replace_or_recompute s oid (Some []) = Inr (w, T)" and
    g: "get_order (snd (updateOrder s oid ?r)) oid = Some (updated_order ?r T D ord)"
    by auto
  from replace_or_recompute_Inr [OF r] have "T = stored_total s oid" by simp
  with g show "map_option total_amount (get_order (snd (updateOrder s oid ?r)) oid)
      = Some (to_cents (stored_total s oid))"
    by (simp add: updated_order_def)
next
  let ?r = "req\<lparr>uo_items := Some its\<rparr>"
  assume a: "its \<noteq> [] \<and> fst (updateOrder s oid ?r) = Ok200"
  then obtain i "is" where its: "its = i # is" by (cases its) auto
  from a have "updateOrder s oid ?r = (Ok200, snd (updateOrder s oid ?r))"
    by (metis prod.collapse)
  from updateOrder_Ok [OF this] obtain w T where
    r: "replace_or_recompute s oid (Some its) = Inr (w, T)" and
    o: "order_items (snd (updateOrder s oid ?r)) = order_items w"
    by auto
  from replace_or_recompute_Inr [OF r] have
    "order_items w = filter (\<lambda>r. oi_order_id r \<noteq> oid) (order_items s) @ new_item_rows s oid its"
    by (simp add: its)
  then show "items_of (snd (updateOrder s oid ?r)) oid = new_item_rows s oid its"
    by (simp add: items_of_def o new_item_rows_def stored_item_def)
qed

theorem updateOrder_empty_items_witness:
  "fst (updateOrder db1 1 ((update_req None None)\<lparr>uo_items := Some []\<rparr>)) = Ok200
   \<and> updateOrder db1 1 ((update_req None None)\<lparr>uo_items := Some []\<rparr>)
       = updateOrder db1 1 ((update_req None None)\<lparr>uo_items := None\<rparr>)
   \<and> order_items (snd (updateOrder db1 1 ((update_req None None)\<lparr>uo_items := Some []\<rparr>)))
       = order_items db1
   \<and> map_option total_amount
        (get_order (snd (updateOrder db1 1 ((update_req None None)\<lparr>uo_items := Some []\<rparr>))) 1)
       = Some 1350
   \<and> [item 3 1 4] \<noteq> []
   \<and> fst (updateOrder db1 1 ((update_req None None)\<lparr>uo_items := Some [item 3 1 4]\<rparr>)) = Ok200
   \<and> items_of (snd (updateOrder db1 1 ((update_req None None)\<lparr>uo_items := Some [item 3 1 4]\<rparr>))) 1
       = [\<lparr>oi_order_id = 1, oi_item_id = 3, oi_item_name = ''Soup'', oi_quantity = 1,
           oi_unit_price = 400, oi_item_total = 400, oi_notes = None\<rparr>]"
  using updateOrder_empty_items_as_omitted [of db1 1 "update_req None None" "[item 3 1 4]"]
  by (simp add: db1_eq order_defs money_defs sample_defs stored_total_def new_item_rows_def)

subsection \<open>What a recorded payment writes\<close>

lemma of_cents_le_iff [simp]: "of_cents a \<le> of_cents b \<longleftrightarrow> a \<le> b"
  by (simp add: of_cents_def divide_le_cancel)

lemma insert_payment_Inr:
  "insert_payment s req = Inr w \<longleftrightarrow>
     fits_10_2 (to_cents (pr_amount req)) \<and> 0 < to_cents (pr_amount req) \<and>
     order_exists s (pr_order_id req) \<and> fk_users s (pr_cashier_id req) \<and>
     w = s\<lparr>payments := payments s @ [stored_payment req]\<rparr>"
  by (auto simp: insert_payment_def numeric_10_2_def Let_def)

lemma add_sales_Inr:
  "add_sales cash amount uid shs = Inr shs' \<Longrightarrow> shs' = map (bump_sales cash amount uid) shs"
  by (induction shs arbitrary: shs')
     (auto simp: bump_sales_def numeric_10_2_Inr split: if_splits sum.splits)

lemma add_sales_no_active:
  "filter (\<lambda>sh. user_id sh = uid \<and> shift_end sh = None) shs = [] \<Longrightarrow>
   add_sales cash amount uid shs = Inr shs"
  by (induction shs) (auto split: if_splits)

lemma map_bump_no_active:
  "filter (\<lambda>sh. user_id sh = uid \<and> shift_end sh = None) shs = [] \<Longrightarrow>
   map (bump_sales cash amount uid) shs = shs"
  by (induction shs) (auto simp: bump_sales_def split: if_splits)

lemma update_shift_sales_Inr:
  "update_shift_sales w req = Inr w' \<Longrightarrow>
   w' = w\<lparr>cashier_shifts :=
          (case pr_cashier_id req of
             None \<Rightarrow> cashier_shifts w
           | Some uid \<Rightarrow>
               if uid = 0 then cashier_shifts w
               else map (bump_sales (toLowerCase (pr_payment_method req) = ''cash'')
                          (pr_amount req) uid) (cashier_shifts w))\<rparr>"
  by (auto simp: update_shift_sales_def split: option.splits if_splits sum.splits
      dest: add_sales_Inr)

lemma complete_if_paid_Inr:
  "complete_if_paid r w oid = Inr w' \<Longrightarrow>
   \<exists>ord. get_order r oid = Some ord \<and>
     w' = (if final_amount ord \<le> sum_payments r oid
           then w\<lparr>orders := map (mark_completed oid) (orders w)\<rparr> else w)"
  by (auto simp: complete_if_paid_def Let_def mark_completed_def split: option.splits if_splits)

lemma sum_payments_insert:
  "sum_payments (s\<lparr>payments := payments s @ [stored_payment req], cashier_shifts := shs\<rparr>)
     (pr_order_id req) = sum_payments s (pr_order_id req) + to_cents (pr_amount req)"
  by (simp add: sum_payments_def stored_payment_def)

lemma recordPayment_Created:
  assumes "recordPayment c s req = (Created201, s')"
  shows "\<exists>ord. get_order s (pr_order_id req) = Some ord \<and>
     0 < to_cents (pr_amount req) \<and>
     s' = s\<lparr>payments := payments s @ [stored_payment req],
            cashier_shifts :=
              (case pr_cashier_id req of
                 None \<Rightarrow> cashier_shifts s
               | Some uid \<Rightarrow>
                   if uid = 0 then cashier_shifts s
                   else map (bump_sales (toLowerCase (pr_payment_method req) = ''cash'')
                              (pr_amount req) uid) (cashier_shifts s)),
            orders :=
              (if final_amount ord \<le>
                    (case c of
                       Client \<Rightarrow> sum_payments s (pr_order_id req) + to_cents (pr_amount req)
                     | Pool \<Rightarrow> sum_payments s (pr_order_id req))
               then map (mark_completed (pr_order_id req)) (orders s) else orders s)\<rparr>"
proof -
  from assms obtain w1 w2 where
    i: "insert_payment s req = Inr w1" and
    u: "update_shift_sales w1 req = Inr w2" and
    p: "complete_if_paid (case c of Client \<Rightarrow> w2 | Pool \<Rightarrow> s) w2 (pr_order_id req) = Inr s'"
    by (auto simp: recordPayment_def recordPayment_tx_def split: sum.splits)
  from i have w1: "w1 = s\<lparr>payments := payments s @ [stored_payment req]\<rparr>"
    and pos: "0 < to_cents (pr_amount req)"
    by (auto simp: insert_payment_Inr)
  define shs where "shs =
     (case pr_cashier_id req of
        None \<Rightarrow> cashier_shifts s
      | Some uid \<Rightarrow>
          if uid = 0 then cashier_shifts s
          else map (bump_sales (toLowerCase (pr_payment_method req) = ''cash'')
                     (pr_amount req) uid) (cashier_shifts s))"
  have w2: "w2 = s\<lparr>payments := payments s @ [stored_payment req], cashier_shifts := shs\<rparr>"
    using update_shift_sales_Inr [OF u] by (auto simp: w1 shs_def split: option.splits)
  from complete_if_paid_Inr [OF p] obtain ord where
    g: "get_order (case c of Client \<Rightarrow> w2 | Pool \<Rightarrow> s) (pr_order_id req) = Some ord" and
    s': "s' = (if final_amount ord \<le>
                   sum_payments (case c of Client \<Rightarrow> w2 | Pool \<Rightarrow> s) (pr_order_id req)
               then w2\<lparr>orders := map (mark_completed (pr_order_id req)) (orders w2)\<rparr> else w2)"
    by auto
  from g have g': "get_order s (pr_order_id req) = Some ord"
    by (cases c) (simp_all add: get_order_def w2)
  have sp: "sum_payments w2 (pr_order_id req)
              = sum_payments s (pr_order_id req) + to_cents (pr_amount req)"
    by (simp add: w2 sum_payments_insert)
  have "s' = s\<lparr>payments := payments s @ [stored_payment req], cashier_shifts := shs,
            orders :=
              (if final_amount ord \<le>
                    (case c of
                       Client \<Rightarrow> sum_payments s (pr_order_id req) + to_cents (pr_amount req)
                     | Pool \<Rightarrow> sum_payments s (pr_order_id req))
               then map (mark_completed (pr_order_id req)) (orders s) else orders s)\<rparr>"
  proof (cases c)
    case Client
    with s' sp show ?thesis by (simp add: w2)
  next
    case Pool
    with s' show ?thesis by (simp add: w2)
  qed
  with g' pos show ?thesis
    unfolding shs_def by blast
qed

lemmas payment_defs =
  recordPayment_def recordPayment_tx_def insert_payment_def stored_payment_def
  update_shift_sales_def toLowerCase_def lower_char_def complete_if_paid_def
  sum_payments_def

lemmas shift_defs =
  startShift_def active_shifts_def insert_shift_def endShift_def adjustShift_def numeric_opt_def

lemma db2_eq:
  "db2 =
     db0\<lparr>orders :=
           [\<lparr>order_id = 1, table_number = Some ''7'', status = ''completed'',
             total_amount = 2000, discount_amount = 0, final_amount = 2000,
             cashier_id = Some 1, order_notes = None\<rparr>],
         order_items :=
           [\<lparr>oi_order_id = 1, oi_item_id = 3, oi_item_name = ''Soup'', oi_quantity = 2,
             oi_unit_price = 1000, oi_item_total = 2000, oi_notes = None\<rparr>],
         payments :=
           [\<lparr>p_order_id = 1, p_payment_method = ''card'', p_amount = 1350,
             p_transaction_id = None, p_cashier_id = None, p_notes = None\<rparr>],
         orders_seq := 1\<rparr>"
  by (simp add: db2_def db1_eq run_def order_defs payment_defs money_defs sample_defs)

lemma db3_eq:
  "db3 =
     db1\<lparr>cashier_shifts :=
           [\<lparr>shift_id = 1, user_id = 1, shift_end = None, opening_cash = 10000,
             closing_cash = None, cash_in = 0, cash_out = 0, sales_amount_cash = 0,
             sales_amount_card = 0, shift_notes = None, reconciled = False\<rparr>],
         shifts_seq := 1\<rparr>"
  by (simp add: db3_def db1_eq run_def shift_defs money_defs sample_defs)

subsection \<open>Payments: completion (C1)\<close>

lemma get_order_mark_completed:
  "find (\<lambda>ord. order_id ord = oid) (map (mark_completed oid) xs) =
   map_option (\<lambda>ord. ord\<lparr>status := ''completed''\<rparr>) (find (\<lambda>ord. order_id ord = oid) xs)"
  by (induction xs) (auto simp: mark_completed_def)

text \<open>
  C1, as the code has it (the version of the handler that reads through the
  transaction's client). When \<^verbatim>\<open>recordPayment\<close> commits, the payments of the order sum
  to the earlier sum plus the stored amount of the new payment, the order keeps its
  \<^verbatim>\<open>final_amount\<close>, and its status is \<^verbatim>\<open>completed\<close> if that sum reaches
  \<^verbatim>\<open>final_amount\<close> and is otherwise the status it had before the call. The handler
  never takes \<^verbatim>\<open>completed\<close> away.
\<close>

theorem recordPayment_completion:
  assumes "recordPayment Client s req = (Created201, s')"
  shows "\<exists>ord. get_order s (pr_order_id req) = Some ord \<and>
     sum_payments s' (pr_order_id req) =
       sum_payments s (pr_order_id req) + to_cents (pr_amount req) \<and>
     get_order s' (pr_order_id req) =
       Some (ord\<lparr>status :=
                   (if final_amount ord \<le> sum_payments s' (pr_order_id req)
                    then ''completed'' else status ord)\<rparr>)"
proof -
  from recordPayment_Created [OF assms] obtain ord where
    g: "get_order s (pr_order_id req) = Some ord" and
    s': "s' = s\<lparr>payments := payments s @ [stored_payment req],
            cashier_shifts :=
              (case pr_cashier_id req of
                 None \<Rightarrow> cashier_shifts s
               | Some uid \<Rightarrow>
                   if uid = 0 then cashier_shifts s
                   else map (bump_sales (toLowerCase (pr_payment_method req) = ''cash'')
                              (pr_amount req) uid) (cashier_shifts s)),
            orders :=
              (if final_amount ord \<le>
                    sum_payments s (pr_order_id req) + to_cents (pr_amount req)
               then map (mark_completed (pr_order_id req)) (orders s) else orders s)\<rparr>"
    by auto
  have sp: "sum_payments s' (pr_order_id req) =
       sum_payments s (pr_order_id req) + to_cents (pr_amount req)"
    by (subst s') (simp add: sum_payments_def stored_payment_def)
  have "get_order s' (pr_order_id req) =
       Some (ord\<lparr>status :=
                   (if final_amount ord \<le> sum_payments s' (pr_order_id req)
                    then ''completed'' else status ord)\<rparr>)"
    unfolding sp using g
    by (subst s') (simp add: get_order_def get_order_mark_completed)
  with g sp show ?thesis by blast
qed

theorem recordPayment_completion_witness:
  "fst (recordPayment Client db1 (pay_req 1 ''cash'' (27 / 2) None)) = Created201
   \<and> get_order db1 1 =
       Some \<lparr>order_id = 1, table_number = Some ''7'', status = ''pending'',
             total_amount = 1350, discount_amount = 0, final_amount = 1350,
             cashier_id = Some 1, order_notes = None\<rparr>
   \<and> sum_payments (snd (recordPayment Client db1 (pay_req 1 ''cash'' (27 / 2) None))) 1 = 1350
   \<and> get_order (snd (recordPayment Client db1 (pay_req 1 ''cash'' (27 / 2) None))) 1 =
       Some \<lparr>order_id = 1, table_number = Some ''7'', status = ''completed'',
             total_amount = 1350, discount_amount = 0, final_amount = 1350,
             cashier_id = Some 1, order_notes = None\<rparr>"
proof -
  have "recordPayment Client db1 (pay_req 1 ''cash'' (27 / 2) None) =
          (Created201, snd (recordPayment Client db1 (pay_req 1 ''cash'' (27 / 2) None)))"
    by (simp add: db1_eq order_defs payment_defs money_defs sample_defs)
  from recordPayment_completion [OF this] show ?thesis
    by (simp add: db1_eq order_defs payment_defs money_defs sample_defs)
qed

text \<open>
  The claim's "if and only if" fails from right to left: in \<open>db2\<close> the order is already
  \<^verbatim>\<open>completed\<close> and owes 20.00; a further payment of 1.00 commits, the payments then
  sum to 14.50, and the status is still \<^verbatim>\<open>completed\<close>.
\<close>

theorem recordPayment_completion_counterexample:
  "fst (recordPayment Client db2 (pay_req 1 ''cash'' 1 None)) = Created201
   \<and> map_option status (get_order (snd (recordPayment Client db2 (pay_req 1 ''cash'' 1 None))) 1)
       = Some ''completed''
   \<and> map_option final_amount
        (get_order (snd (recordPayment Client db2 (pay_req 1 ''cash'' 1 None))) 1) = Some 2000
   \<and> sum_payments (snd (recordPayment Client db2 (pay_req 1 ''cash'' 1 None))) 1 = 1450
   \<and> \<not> (2000 \<le> sum_payments (snd (recordPayment Client db2 (pay_req 1 ''cash'' 1 None))) 1)"
  by (simp add: db2_eq order_defs payment_defs money_defs sample_defs)

text \<open>
  The version of the handler behind the \<^verbatim>\<open>auth\<close> middleware reads the sum through the
  pool, so it does not see the payment it has just inserted: a first payment of the full
  13.50 commits and leaves the order \<^verbatim>\<open>pending\<close>.
\<close>

lemma recordPayment_pool_misses_new_payment:
  "fst (recordPayment Pool db1 (pay_req 1 ''cash'' (27 / 2) None)) = Created201
   \<and> sum_payments (snd (recordPayment Pool db1 (pay_req 1 ''cash'' (27 / 2) None))) 1 = 1350
   \<and> map_option final_amount
        (get_order (snd (recordPayment Pool db1 (pay_req 1 ''cash'' (27 / 2) None))) 1) = Some 1350
   \<and> map_option status
        (get_order (snd (recordPayment Pool db1 (pay_req 1 ''cash'' (27 / 2) None))) 1)
       = Some ''pending''"
  by (simp add: db1_eq order_defs payment_defs money_defs sample_defs)

subsection \<open>Payments: rejection and rollback (C6)\<close>



subsection \<open>Payments: the shift's running totals (C7, C9)\<close>

lemma to_cents_pos_imp: "0 < to_cents x \<Longrightarrow> 0 < x"
  using to_cents_nonpos [of x] by (cases "x \<le> 0") auto

lemma bump_sales_credit:
  assumes "0 \<le> sales_amount_cash sh" "0 \<le> sales_amount_card sh" "0 \<le> a"
  shows "bump_sales cash a uid sh = credit_sales cash (to_cents a) uid sh"
  using assms by (simp add: bump_sales_def credit_sales_def to_cents_add_nonneg)

lemma toLowerCase_cash [simp]: "toLowerCase ''cash'' = ''cash''"
  by (simp add: toLowerCase_def lower_char_def)

lemma toLowerCase_card [simp]: "toLowerCase ''card'' = ''card''"
  by (simp add: toLowerCase_def lower_char_def)

lemma recordPayment_shifts:
  assumes "recordPayment c s req = (Created201, s')"
    and "pr_cashier_id req = Some uid" and "uid \<noteq> 0" and "sales_nonneg s"
  shows "cashier_shifts s' =
           map (credit_sales (toLowerCase (pr_payment_method req) = ''cash'')
                  (to_cents (pr_amount req)) uid) (cashier_shifts s)"
    and "payments s' = payments s @ [stored_payment req]"
proof -
  have pos: "0 < to_cents (pr_amount req)"
    using recordPayment_Created [OF assms(1)] by auto
  have sh: "cashier_shifts s' =
      map (bump_sales (toLowerCase (pr_payment_method req) = ''cash'') (pr_amount req) uid)
        (cashier_shifts s)"
    using recordPayment_Created [OF assms(1)] assms(2,3) by auto
  from pos have a: "0 \<le> pr_amount req" using to_cents_pos_imp by fastforce
  have "map (bump_sales (toLowerCase (pr_payment_method req) = ''cash'') (pr_amount req) uid)
          (cashier_shifts s) =
        map (credit_sales (toLowerCase (pr_payment_method req) = ''cash'')
               (to_cents (pr_amount req)) uid) (cashier_shifts s)"
    using assms(4) a
    by (intro map_cong refl bump_sales_credit) (auto simp: sales_nonneg_def list_all_iff)
  with sh show "cashier_shifts s' =
           map (credit_sales (toLowerCase (pr_payment_method req) = ''cash'')
                  (to_cents (pr_amount req)) uid) (cashier_shifts s)"
    by simp
  show "payments s' = payments s @ [stored_payment req]"
    using recordPayment_Created [OF assms(1)] by auto
qed

lemma map_credit_no_active:
  "active_shifts s uid = [] \<Longrightarrow> map (credit_sales cash cents uid) (cashier_shifts s) = cashier_shifts s"
  unfolding active_shifts_def
  by (intro map_idI) (auto simp: credit_sales_def filter_empty_conv)

lemma recordPayment_without_shift:
  assumes "pr_cashier_id req = Some uid" and "active_shifts s uid = []"
    and "insert_payment s req = Inr w"
  shows "fst (recordPayment c s req) = Created201"
proof -
  from assms(3) have w: "w = s\<lparr>payments := payments s @ [stored_payment req]\<rparr>"
    and ex: "order_exists s (pr_order_id req)"
    by (auto simp: insert_payment_Inr)
  have "add_sales cash (pr_amount req) uid (cashier_shifts w) = Inr (cashier_shifts w)" for cash
    using assms(2) by (intro add_sales_no_active) (simp add: w active_shifts_def)
  then have u: "update_shift_sales w req = Inr w"
    by (simp add: update_shift_sales_def assms(1))
  from ex obtain ord where "get_order s (pr_order_id req) = Some ord"
    by (auto simp: order_exists_iff)
  then have "\<exists>w'. complete_if_paid (case c of Client \<Rightarrow> w | Pool \<Rightarrow> s) w (pr_order_id req) = Inr w'"
    by (cases c) (auto simp: complete_if_paid_def Let_def get_order_def w)
  with assms(3) u show ?thesis
    by (auto simp: recordPayment_def recordPayment_tx_def)
qed

text \<open>
  C7. A committed payment with a cashier appends the payment row, and adds the amount
  of that row to \<^verbatim>\<open>sales_amount_cash\<close> (method \<^verbatim>\<open>cash\<close>) or to \<^verbatim>\<open>sales_amount_card\<close>
  (method \<^verbatim>\<open>card\<close>) of the cashier's active shift, and changes no other row. Without an
  active shift no row changes, and the payment is recorded whenever its own
  \<^verbatim>\<open>INSERT\<close> is accepted. The running totals are non-negative, as they are in every
  state the handlers reach from a database without shifts.
\<close>

theorem recordPayment_shift_increment:
  "(recordPayment c s req = (Created201, s') \<and> pr_cashier_id req = Some uid \<and> uid \<noteq> 0
      \<and> sales_nonneg s \<longrightarrow>
      payments s' = payments s @ [stored_payment req]
      \<and> (pr_payment_method req = ''cash'' \<longrightarrow>
           cashier_shifts s' =
             map (credit_sales True (p_amount (stored_payment req)) uid) (cashier_shifts s))
      \<and> (pr_payment_method req = ''card'' \<longrightarrow>
           cashier_shifts s' =
             map (credit_sales False (p_amount (stored_payment req)) uid) (cashier_shifts s))
      \<and> (active_shifts s uid = [] \<longrightarrow> cashier_shifts s' = cashier_shifts s))
   \<and> (pr_cashier_id req = Some uid \<and> active_shifts s uid = [] \<and> insert_payment s req = Inr w
        \<longrightarrow> fst (recordPayment c s req) = Created201)"
proof -
  have "payments s' = payments s @ [stored_payment req]
      \<and> (pr_payment_method req = ''cash'' \<longrightarrow>
           cashier_shifts s' =
             map (credit_sales True (p_amount (stored_payment req)) uid) (cashier_shifts s))
      \<and> (pr_payment_method req = ''card'' \<longrightarrow>
           cashier_shifts s' =
             map (credit_sales False (p_amount (stored_payment req)) uid) (cashier_shifts s))
      \<and> (active_shifts s uid = [] \<longrightarrow> cashier_shifts s' = cashier_shifts s)"
    if h: "recordPayment c s req = (Created201, s') \<and> pr_cashier_id req = Some uid \<and> uid \<noteq> 0
      \<and> sales_nonneg s"
  proof -
    from h have sh: "cashier_shifts s' =
           map (credit_sales (toLowerCase (pr_payment_method req) = ''cash'')
                  (to_cents (pr_amount req)) uid) (cashier_shifts s)"
      and p: "payments s' = payments s @ [stored_payment req]"
      by (auto dest: recordPayment_shifts)
    from sh p show ?thesis
      by (auto simp: stored_payment_def map_credit_no_active)
  qed
  moreover have "fst (recordPayment c s req) = Created201"
    if "pr_cashier_id req = Some uid \<and> active_shifts s uid = [] \<and> insert_payment s req = Inr w"
    using that recordPayment_without_shift by blast
  ultimately show ?thesis by blast
qed

theorem recordPayment_shift_increment_witness:
  "recordPayment Client db3 (pay_req 1 ''cash'' (243 / 20) (Some 1)) =
     (Created201, snd (recordPayment Client db3 (pay_req 1 ''cash'' (243 / 20) (Some 1))))
   \<and> sales_nonneg db3
   \<and> payments (snd (recordPayment Client db3 (pay_req 1 ''cash'' (243 / 20) (Some 1)))) =
       [\<lparr>p_order_id = 1, p_payment_method = ''cash'', p_amount = 1215,
         p_transaction_id = None, p_cashier_id = Some 1, p_notes = None\<rparr>]
   \<and> map (\<lambda>sh. (sales_amount_cash sh, sales_amount_card sh))
       (cashier_shifts (snd (recordPayment Client db3 (pay_req 1 ''cash'' (243 / 20) (Some 1)))))
       = [(1215, 0)]
   \<and> map (\<lambda>sh. (sales_amount_cash sh, sales_amount_card sh))
       (cashier_shifts (snd (recordPayment Pool db3 (pay_req 1 ''card'' (243 / 20) (Some 1)))))
       = [(0, 1215)]
   \<and> active_shifts db3 2 = []
   \<and> fst (recordPayment Client db3 (pay_req 1 ''cash'' (243 / 20) (Some 2))) = Created201
   \<and> cashier_shifts (snd (recordPayment Client db3 (pay_req 1 ''cash'' (243 / 20) (Some 2))))
       = cashier_shifts db3"
  using
    recordPayment_shift_increment [of Client db3 "pay_req 1 ''cash'' (243 / 20) (Some 1)"
      "snd (recordPayment Client db3 (pay_req 1 ''cash'' (243 / 20) (Some 1)))" 1]
    recordPayment_shift_increment [of Pool db3 "pay_req 1 ''card'' (243 / 20) (Some 1)"
      "snd (recordPayment Pool db3 (pay_req 1 ''card'' (243 / 20) (Some 1)))" 1]
    recordPayment_shift_increment [of Client db3 "pay_req 1 ''cash'' (243 / 20) (Some 2)"
      "snd (recordPayment Client db3 (pay_req 1 ''cash'' (243 / 20) (Some 2)))" 2
      "db3\<lparr>payments := payments db3 @ [stored_payment (pay_req 1 ''cash'' (243 / 20) (Some 2))]\<rparr>"]
  by (simp add: db3_eq db1_eq order_defs payment_defs money_defs sample_defs shift_defs
        sales_nonneg_def credit_sales_def)

text \<open>
  C9. The column is chosen by \<^verbatim>\<open>payment_method.toLowerCase() === 'cash'\<close> alone: every
  method whose lower-case form is not \<^verbatim>\<open>cash\<close> (\<^verbatim>\<open>voucher\<close>, \<^verbatim>\<open>transfer\<close>, \<^verbatim>\<open>card\<close>, ...)
  adds the payment to \<^verbatim>\<open>sales_amount_card\<close>, and \<^verbatim>\<open>cash\<close> in any letter case adds it to
  \<^verbatim>\<open>sales_amount_cash\<close>.
\<close>

theorem recordPayment_method_dispatch:
  "(recordPayment c s req = (Created201, s') \<and> pr_cashier_id req = Some uid \<and> uid \<noteq> 0
      \<and> sales_nonneg s \<longrightarrow>
      (toLowerCase (pr_payment_method req) \<noteq> ''cash'' \<longrightarrow>
         cashier_shifts s' =
           map (credit_sales False (to_cents (pr_amount req)) uid) (cashier_shifts s))
      \<and> (toLowerCase (pr_payment_method req) = ''cash'' \<longrightarrow>
         cashier_shifts s' =
           map (credit_sales True (to_cents (pr_amount req)) uid) (cashier_shifts s)))
   \<and> toLowerCase ''voucher'' \<noteq> ''cash'' \<and> toLowerCase ''transfer'' \<noteq> ''cash''
   \<and> toLowerCase ''card'' \<noteq> ''cash'' \<and> toLowerCase ''CASH'' = ''cash''
   \<and> toLowerCase ''Cash'' = ''cash''"
proof -
  have "(toLowerCase (pr_payment_method req) \<noteq> ''cash'' \<longrightarrow>
         cashier_shifts s' =
           map (credit_sales False (to_cents (pr_amount req)) uid) (cashier_shifts s))
      \<and> (toLowerCase (pr_payment_method req) = ''cash'' \<longrightarrow>
         cashier_shifts s' =
           map (credit_sales True (to_cents (pr_amount req)) uid) (cashier_shifts s))"
    if h: "recordPayment c s req = (Created201, s') \<and> pr_cashier_id req = Some uid \<and> uid \<noteq> 0
      \<and> sales_nonneg s"
  proof -
    from h have "cashier_shifts s' =
           map (credit_sales (toLowerCase (pr_payment_method req) = ''cash'')
                  (to_cents (pr_amount req)) uid) (cashier_shifts s)"
      by (auto dest: recordPayment_shifts)
    then show ?thesis by auto
  qed
  moreover have "toLowerCase ''voucher'' \<noteq> ''cash'' \<and> toLowerCase ''transfer'' \<noteq> ''cash''
   \<and> toLowerCase ''card'' \<noteq> ''cash'' \<and> toLowerCase ''CASH'' = ''cash''
   \<and> toLowerCase ''Cash'' = ''cash''"
    by (simp add: toLowerCase_def lower_char_def)
  ultimately show ?thesis by blast
qed

theorem recordPayment_method_dispatch_witness:
  "recordPayment Client db3 (pay_req 1 ''voucher'' (243 / 20) (Some 1)) =
     (Created201, snd (recordPayment Client db3 (pay_req 1 ''voucher'' (243 / 20) (Some 1))))
   \<and> sales_nonneg db3
   \<and> toLowerCase (pr_payment_method (pay_req 1 ''voucher'' (243 / 20) (Some 1))) \<noteq> ''cash''
   \<and> map (\<lambda>sh. (sales_amount_cash sh, sales_amount_card sh))
       (cashier_shifts (snd (recordPayment Client db3 (pay_req 1 ''voucher'' (243 / 20) (Some 1)))))
       = [(0, 1215)]
   \<and> toLowerCase (pr_payment_method (pay_req 1 ''CASH'' (243 / 20) (Some 1))) = ''cash''
   \<and> map (\<lambda>sh. (sales_amount_cash sh, sales_amount_card sh))
       (cashier_shifts (snd (recordPayment Pool db3 (pay_req 1 ''CASH'' (243 / 20) (Some 1)))))
       = [(1215, 0)]"
  using
    recordPayment_method_dispatch [of Client db3 "pay_req 1 ''voucher'' (243 / 20) (Some 1)"
      "snd (recordPayment Client db3 (pay_req 1 ''voucher'' (243 / 20) (Some 1)))" 1]
    recordPayment_method_dispatch [of Pool db3 "pay_req 1 ''CASH'' (243 / 20) (Some 1)"
      "snd (recordPayment Pool db3 (pay_req 1 ''CASH'' (243 / 20) (Some 1)))" 1]
  by (simp add: db3_eq db1_eq order_defs payment_defs money_defs sample_defs shift_defs
        sales_nonneg_def credit_sales_def)

subsection \<open>Discounts on an order update (C3, C4, C2)\<close>






lemma to_cents_0 [simp]: "to_cents 0 = 0"
  by (simp add: to_cents_def round_half_away_def)



lemma applicable_frame:
  "discounts w = discounts s \<Longrightarrow> applicable w req = applicable s req"
  by (simp add: applicable_def active_discount_def cong: option.case_cong if_cong)

lemma replace_or_recompute_discounts:
  "replace_or_recompute s oid its = Inr (w, T) \<Longrightarrow> discounts w = discounts s"
  by (auto dest!: replace_or_recompute_Inr split: option.splits list.splits)

text \<open>The amounts a successful update stores, in terms of the discount it applies.\<close>

lemma updateOrder_Ok_amounts:
  assumes "updateOrder s oid req = (Ok200, s')"
  shows "\<exists>w T ord.
     replace_or_recompute s oid (uo_items req) = Inr (w, T) \<and>
     get_order s' oid = Some ord \<and>
     total_amount ord = to_cents T \<and>
     (case applicable s req of
        None \<Rightarrow> discount_amount ord = 0 \<and> final_amount ord = to_cents T \<and>
                 discounts_of s' oid = []
      | Some d \<Rightarrow> discount_amount ord = to_cents (discount_amount_for T d) \<and>
                  final_amount ord = to_cents (T - discount_amount_for T d) \<and>
                  map (\<lambda>r. (od_discount_id r, od_applied_value r)) (discounts_of s' oid) =
                    [(d_discount_id d, to_cents (discount_amount_for T d))])"
proof -
  from updateOrder_Ok [OF assms] obtain w T D w' ord where
    r: "replace_or_recompute s oid (uo_items req) = Inr (w, T)" and
    a: "apply_discount w oid req T = Inr (w', D, T - D)" and
    g: "get_order s' oid = Some (updated_order req T D ord)" and
    od: "order_discounts s' = order_discounts w'"
    by blast
  have ap: "applicable w req = applicable s req"
    using replace_or_recompute_discounts [OF r] by (rule applicable_frame)
  show ?thesis
  proof (cases "applicable s req")
    case None
    with apply_discount_Inr [OF a] ap have "D = 0"
      and "order_discounts w' = filter (\<lambda>r. od_order_id r \<noteq> oid) (order_discounts w)"
      by auto
    with r g od None show ?thesis
      by (auto simp: updated_order_def discounts_of_def)
  next
    case (Some d)
    with apply_discount_Inr [OF a] ap have "D = discount_amount_for T d"
      and "order_discounts w' = filter (\<lambda>r. od_order_id r \<noteq> oid) (order_discounts w) @
                  [\<lparr>od_order_id = oid, od_discount_id = d_discount_id d,
                    od_applied_value = to_cents D,
                    od_applied_by_user_id =
                      (if truthy (uo_applied_by_user_id req) then uo_applied_by_user_id req
                       else None)\<rparr>]"
      by auto
    with r g od Some show ?thesis
      by (auto simp: updated_order_def discounts_of_def)
  qed
qed




text \<open>
  C4. The handler looks the discount up with \<^verbatim>\<open>is_active = TRUE\<close> and reads neither
  \<^verbatim>\<open>min_amount_threshold\<close> nor \<^verbatim>\<open>valid_from\<close> and \<^verbatim>\<open>valid_until\<close>; it takes no clock at
  all. Discount 5 asks for an order of at least 100.00 and is valid from time 100 to
  time 200; on the order of 13.50 it is applied in full, whatever the time: 1.35 is
  deducted and an \<^verbatim>\<open>order_discounts\<close> row is persisted.
\<close>

theorem updateOrder_applies_restricted_discount:
  "d_min_amount_threshold discount_restricted = Some 10000
   \<and> d_valid_from discount_restricted = Some 100
   \<and> d_valid_until discount_restricted = Some 200
   \<and> fst (updateOrder db1 1 (update_req None (Some 5))) = Ok200
   \<and> map_option (\<lambda>ord. (total_amount ord, discount_amount ord, final_amount ord))
        (get_order (snd (updateOrder db1 1 (update_req None (Some 5)))) 1)
       = Some (1350, 135, 1215)
   \<and> discounts_of (snd (updateOrder db1 1 (update_req None (Some 5)))) 1 =
       [\<lparr>od_order_id = 1, od_discount_id = 5, od_applied_value = 135,
         od_applied_by_user_id = Some 2\<rparr>]"
  by (simp add: db1_eq order_defs money_defs sample_defs discounts_of_def)

text \<open>
  The part of C4 the code does implement: a discount id that matches no active row
  (unknown, or \<^verbatim>\<open>is_active\<close> false or NULL) is skipped silently, and the update is the
  one the same request makes without a discount id.
\<close>

lemma updateOrder_inactive_discount_skipped:
  assumes "applicable s req = None"
  shows "updateOrder s oid req = updateOrder s oid (req\<lparr>uo_discount_id := None\<rparr>)"
proof -
  have "apply_discount w oid req T = apply_discount w oid (req\<lparr>uo_discount_id := None\<rparr>) T"
    if "discounts w = discounts s" for w T
    using assms that
    by (auto simp: apply_discount_def applicable_def active_discount_def Let_def
        split: option.splits)
  moreover have "update_order_row s w oid (req\<lparr>uo_discount_id := None\<rparr>) T D F =
      update_order_row s w oid req T D F" for w T D F
    by (simp add: update_order_row_def cong: sum.case_cong if_cong)
  ultimately show ?thesis
    by (auto simp: updateOrder_def updateOrder_tx_def
        dest: replace_or_recompute_discounts split: sum.splits)
qed

lemma updateOrder_inactive_discount_example:
  "applicable db1 (update_req None (Some 4)) = None
   \<and> fst (updateOrder db1 1 (update_req None (Some 4))) = Ok200
   \<and> map_option (\<lambda>ord. (total_amount ord, discount_amount ord, final_amount ord))
        (get_order (snd (updateOrder db1 1 (update_req None (Some 4)))) 1)
       = Some (1350, 0, 1350)
   \<and> discounts_of (snd (updateOrder db1 1 (update_req None (Some 4)))) 1 = []"
  by (simp add: db1_eq order_defs money_defs sample_defs discounts_of_def applicable_def)

lemma dbR_eq:
  "dbR =
     db0\<lparr>orders :=
           [\<lparr>order_id = 1, table_number = Some ''7'', status = ''pending'',
             total_amount = 1225, discount_amount = 0, final_amount = 1225,
             cashier_id = Some 1, order_notes = None\<rparr>],
         order_items :=
           [\<lparr>oi_order_id = 1, oi_item_id = 3, oi_item_name = ''Soup'', oi_quantity = 1,
             oi_unit_price = 1225, oi_item_total = 1225, oi_notes = None\<rparr>],
         orders_seq := 1\<rparr>"
  by (simp add: dbR_def run_def order_defs money_defs sample_defs)

text \<open>
  C2. The handler computes \<^verbatim>\<open>final_amount = newTotalAmount - discount_amount\<close> on the
  unrounded numbers, and the three columns are rounded one by one when they are stored.
  With the 10 percent discount on the order of 12.25 the discount 1.225 is stored as 1.23
  and the final amount 11.025 as 11.03, so the stored \<^verbatim>\<open>final_amount\<close> is not
  \<^verbatim>\<open>total_amount - discount_amount\<close> = 11.02. The total is the sum of the stored line
  totals.
\<close>

theorem updateOrder_rounds_columns_apart:
  "fst (updateOrder dbR 1 (update_req None (Some 1))) = Ok200
   \<and> map_option (\<lambda>ord. (total_amount ord, discount_amount ord, final_amount ord))
        (get_order (snd (updateOrder dbR 1 (update_req None (Some 1)))) 1)
       = Some (1225, 123, 1103)
   \<and> (1103 :: int) \<noteq> to_cents (of_cents 1225 - of_cents 123)
   \<and> sum_list (map oi_item_total (items_of (snd (updateOrder dbR 1 (update_req None (Some 1)))) 1))
       = 1225"
  by (simp add: dbR_eq order_defs money_defs sample_defs)

text \<open>
  What does hold of the three stored amounts after any successful update: each is
  within half a cent of the number it was rounded from, so \<^verbatim>\<open>final_amount\<close> is within one
  cent of \<^verbatim>\<open>total_amount - discount_amount\<close>; when no discount is applied the two are
  equal.
\<close>

lemma to_cents_error: "\<bar>of_int (to_cents x) - x * 100\<bar> \<le> 1 / 2"
proof (cases "0 \<le> x")
  case True
  have "of_int \<lfloor>x * 100 + 1 / 2\<rfloor> \<le> x * 100 + 1 / 2"
    "x * 100 + 1 / 2 < of_int \<lfloor>x * 100 + 1 / 2\<rfloor> + 1"
    by linarith+
  moreover from True have "to_cents x = \<lfloor>x * 100 + 1 / 2\<rfloor>"
    by (simp add: to_cents_def round_half_away_def)
  ultimately show ?thesis by linarith
next
  case False
  have "of_int \<lfloor>- (x * 100) + 1 / 2\<rfloor> \<le> - (x * 100) + 1 / 2"
    "- (x * 100) + 1 / 2 < of_int \<lfloor>- (x * 100) + 1 / 2\<rfloor> + 1"
    by linarith+
  moreover from False have "to_cents x = - \<lfloor>- (x * 100) + 1 / 2\<rfloor>"
    by (simp add: to_cents_def round_half_away_def)
  ultimately show ?thesis by (simp only: of_int_minus)
qed

lemma updateOrder_amounts_within_a_cent:
  assumes "updateOrder s oid req = (Ok200, s')"
  shows "\<exists>ord. get_order s' oid = Some ord \<and>
     \<bar>final_amount ord - (total_amount ord - discount_amount ord)\<bar> \<le> 1 \<and>
     (applicable s req = None \<longrightarrow>
        discount_amount ord = 0 \<and> final_amount ord = total_amount ord)"
proof -
  from updateOrder_Ok_amounts [OF assms] obtain w T ord where
    g: "get_order s' oid = Some ord" and
    t: "total_amount ord = to_cents T" and
    c: "case applicable s req of
        None \<Rightarrow> discount_amount ord = 0 \<and> final_amount ord = to_cents T \<and>
                 discounts_of s' oid = []
      | Some d \<Rightarrow> discount_amount ord = to_cents (discount_amount_for T d) \<and>
                  final_amount ord = to_cents (T - discount_amount_for T d) \<and>
                  map (\<lambda>r. (od_discount_id r, od_applied_value r)) (discounts_of s' oid) =
                    [(d_discount_id d, to_cents (discount_amount_for T d))]"
    by blast
  obtain D where d: "discount_amount ord = to_cents D" and f: "final_amount ord = to_cents (T - D)"
    and n: "applicable s req = None \<longrightarrow> D = 0"
    using c by (cases "applicable s req") (auto intro: that [of 0] that)
  have "\<bar>of_int (to_cents (T - D)) - (T - D) * 100\<bar> \<le> 1 / 2"
    "\<bar>of_int (to_cents T) - T * 100\<bar> \<le> 1 / 2" "\<bar>of_int (to_cents D) - D * 100\<bar> \<le> 1 / 2"
    by (rule to_cents_error)+
  moreover have "(T - D) * 100 = T * 100 - D * 100" by (simp add: algebra_simps)
  moreover have "real_of_int (to_cents (T - D) - (to_cents T - to_cents D)) =
      of_int (to_cents (T - D)) - (of_int (to_cents T) - of_int (to_cents D))"
    by simp
  ultimately have "\<bar>real_of_int (to_cents (T - D) - (to_cents T - to_cents D))\<bar> \<le> 3 / 2"
    by linarith
  then have "\<bar>to_cents (T - D) - (to_cents T - to_cents D)\<bar> \<le> 1"
    by linarith
  with g t d f n show ?thesis by auto
qed

subsection \<open>Creating an order (C5)\<close>

lemma insert_order_Inr:
  "insert_order s tn t f cashier nts st = Inr (oid, w) \<longleftrightarrow>
     fits_10_2 (to_cents t) \<and> fits_10_2 (to_cents f) \<and> fk_users s cashier \<and>
     oid = orders_seq s + 1 \<and>
     w = s\<lparr>orders := orders s @
            [\<lparr>order_id = orders_seq s + 1, table_number = tn, status = st,
              total_amount = to_cents t, discount_amount = 0, final_amount = to_cents f,
              cashier_id = cashier, order_notes = nts\<rparr>],
          orders_seq := orders_seq s + 1\<rparr>"
  by (auto simp: insert_order_def numeric_10_2_def Let_def)


lemma createOrder_cases:
  "createOrder s req = (ServerError500, s) \<or> (\<exists>s'. createOrder s req = (Created201, s'))"
  by (auto simp: createOrder_def split: sum.splits)

lemma createOrder_Created:
  assumes "createOrder s req = (Created201, s')"
  shows "\<exists>its. co_items req = Some its \<and> list_all (resolves s) its \<and>
     s' = s\<lparr>orders := orders s @
              [\<lparr>order_id = orders_seq s + 1, table_number = co_table_number req,
                status = ''pending'', total_amount = to_cents (request_total its),
                discount_amount = 0, final_amount = to_cents (request_total its),
                cashier_id = co_cashier_id req, order_notes = co_notes req\<rparr>],
            orders_seq := orders_seq s + 1,
            order_items := order_items s @ new_item_rows s (orders_seq s + 1) its\<rparr>"
proof -
  from assms obtain its oid w w' T where
    its: "co_items req = Some its" and
    o: "insert_order s (co_table_number req) (request_total its) (request_total its)
          (co_cashier_id req) (co_notes req) ''pending'' = Inr (oid, w)" and
    i: "insert_items w oid its 0 = Inr (w', T)" and
    s': "s' = w'"
    by (auto simp: createOrder_def createOrder_tx_def request_total_def Let_def
        split: option.splits sum.splits)
  from o have oid: "oid = orders_seq s + 1" and
    w: "w = s\<lparr>orders := orders s @
            [\<lparr>order_id = orders_seq s + 1, table_number = co_table_number req,
              status = ''pending'', total_amount = to_cents (request_total its),
              discount_amount = 0, final_amount = to_cents (request_total its),
              cashier_id = co_cashier_id req, order_notes = co_notes req\<rparr>],
          orders_seq := orders_seq s + 1\<rparr>"
    by (simp_all add: insert_order_Inr)
  from insert_items_Inr [OF i] have
    w': "w' = w\<lparr>order_items := order_items w @ new_item_rows w oid its\<rparr>" and
    res: "list_all (resolves w) its"
    by (simp_all add: new_item_rows_def resolves_def)
  have "list_all (resolves s) its" using res by (simp add: w resolves_def)
  moreover have "s' = s\<lparr>orders := orders s @
              [\<lparr>order_id = orders_seq s + 1, table_number = co_table_number req,
                status = ''pending'', total_amount = to_cents (request_total its),
                discount_amount = 0, final_amount = to_cents (request_total its),
                cashier_id = co_cashier_id req, order_notes = co_notes req\<rparr>],
            orders_seq := orders_seq s + 1,
            order_items := order_items s @ new_item_rows s (orders_seq s + 1) its\<rparr>"
    by (simp add: s' w' oid) (simp add: w new_item_rows_def)
  ultimately show ?thesis using its by blast
qed




subsection \<open>Shifts: at most one active shift per user (C8)\<close>

lemma active_users_keys:
  "map user_id (filter (\<lambda>sh. shift_end sh = None) shs) =
   map fst (filter (\<lambda>k. snd k = None) (map (\<lambda>sh. (user_id sh, shift_end sh)) shs))"
  by (induction shs) auto

lemma single_active_shift_keys:
  "shift_keys s' = shift_keys s \<Longrightarrow> single_active_shift s' = single_active_shift s"
  by (simp add: single_active_shift_def shift_keys_def active_users_keys)

lemma distinct_map_iff_filter:
  "distinct (map f xs) \<longleftrightarrow> (\<forall>y. length (filter (\<lambda>x. f x = y) xs) \<le> 1)"
proof (induction xs)
  case Nil
  show ?case by simp
next
  case (Cons x xs)
  show ?case
  proof
    assume d: "distinct (map f (x # xs))"
    then have "f x \<notin> f ` set xs" by simp
    then have "filter (\<lambda>z. f z = f x) xs = []"
      unfolding filter_empty_conv by (metis imageI)
    with d Cons show "\<forall>y. length (filter (\<lambda>z. f z = y) (x # xs)) \<le> 1"
      by auto
  next
    assume a: "\<forall>y. length (filter (\<lambda>z. f z = y) (x # xs)) \<le> 1"
    then have "length (filter (\<lambda>z. f z = f x) (x # xs)) \<le> 1" by blast
    then have "filter (\<lambda>z. f z = f x) xs = []" by simp
    then have n: "f x \<notin> f ` set xs" by (auto simp: filter_empty_conv)
    have "\<forall>y. length (filter (\<lambda>z. f z = y) xs) \<le> 1"
    proof
      fix y
      from a have "length (filter (\<lambda>z. f z = y) (x # xs)) \<le> 1" by blast
      then show "length (filter (\<lambda>z. f z = y) xs) \<le> 1" by (simp split: if_splits)
    qed
    with Cons n show "distinct (map f (x # xs))" by simp
  qed
qed

lemma single_active_shift_iff:
  "single_active_shift s \<longleftrightarrow> (\<forall>uid. length (active_shifts s uid) \<le> 1)"
proof -
  have "active_shifts s uid =
      filter (\<lambda>sh. user_id sh = uid) (filter (\<lambda>sh. shift_end sh = None) (cashier_shifts s))"
    for uid
    by (simp add: active_shifts_def conj_commute)
  then show ?thesis
    by (simp add: single_active_shift_def distinct_map_iff_filter)
qed

lemma createOrder_shifts [simp]:
  "cashier_shifts (snd (createOrder s req)) = cashier_shifts s"
  using createOrder_cases [of s req]
proof
  assume "createOrder s req = (ServerError500, s)"
  then show ?thesis by simp
next
  assume "\<exists>s'. createOrder s req = (Created201, s')"
  then obtain s' where e: "createOrder s req = (Created201, s')" by blast
  from createOrder_Created [OF e] show ?thesis by (auto simp: e)
qed

lemma updateOrder_shifts [simp]:
  "cashier_shifts (snd (updateOrder s oid req)) = cashier_shifts s"
proof (cases "updateOrder_tx s oid req")
  case (Inl e)
  then show ?thesis by (simp add: updateOrder_def)
next
  case (Inr r)
  then obtain w T w' D F where
    r: "replace_or_recompute s oid (uo_items req) = Inr (w, T)" and
    a: "apply_discount w oid req T = Inr (w', D, F)" and
    u: "update_order_row s w' oid req T D F = Inr r"
    by (auto simp: updateOrder_tx_def split: sum.splits)
  from replace_or_recompute_Inr [OF r] have "cashier_shifts w = cashier_shifts s"
    by (auto split: option.splits list.splits)
  moreover from apply_discount_Inr [OF a] have "cashier_shifts w' = cashier_shifts w"
    by (auto split: option.splits)
  moreover from u have "cashier_shifts (snd r) = cashier_shifts s \<or>
      cashier_shifts (snd r) = cashier_shifts w'"
    by (auto simp: update_order_row_def split: sum.splits if_splits)
  ultimately show ?thesis using Inr by (auto simp: updateOrder_def)
qed

lemma setOrderStatus_shifts [simp]:
  "cashier_shifts (snd (setOrderStatus s oid st)) = cashier_shifts s"
  by (simp add: setOrderStatus_def)

lemma recordPayment_cases:
  "recordPayment c s req = (ServerError500, s) \<or> (\<exists>s'. recordPayment c s req = (Created201, s'))"
  by (auto simp: recordPayment_def split: sum.splits)

lemma recordPayment_shift_rows:
  "cashier_shifts (snd (recordPayment c s req)) = cashier_shifts s \<or>
   (\<exists>cash uid. 0 < to_cents (pr_amount req) \<and>
      cashier_shifts (snd (recordPayment c s req)) =
        map (bump_sales cash (pr_amount req) uid) (cashier_shifts s))"
  using recordPayment_cases [of c s req]
proof
  assume "recordPayment c s req = (ServerError500, s)"
  then show ?thesis by simp
next
  assume "\<exists>s'. recordPayment c s req = (Created201, s')"
  then obtain s' where s': "recordPayment c s req = (Created201, s')" by blast
  from recordPayment_Created [OF s'] have pos: "0 < to_cents (pr_amount req)" and
    sh: "cashier_shifts s' =
      (case pr_cashier_id req of
         None \<Rightarrow> cashier_shifts s
       | Some uid \<Rightarrow>
           if uid = 0 then cashier_shifts s
           else map (bump_sales (toLowerCase (pr_payment_method req) = ''cash'')
                      (pr_amount req) uid) (cashier_shifts s))"
    by auto
  show ?thesis
  proof (cases "pr_cashier_id req")
    case None
    with sh show ?thesis by (simp add: s')
  next
    case (Some uid)
    show ?thesis
    proof (cases "uid = 0")
      case True
      with sh Some show ?thesis by (simp add: s')
    next
      case False
      with sh Some pos show ?thesis by (auto simp: s')
    qed
  qed
qed

lemma recordPayment_keys: "shift_keys (snd (recordPayment c s req)) = shift_keys s"
  using recordPayment_shift_rows [of c s req]
  by (auto simp: shift_keys_def bump_sales_def)

lemma adjustShift_keys: "shift_keys (snd (adjustShift s sid req)) = shift_keys s"
  by (auto simp: adjustShift_def shift_keys_def split: sum.splits)

lemma endShift_rows:
  "cashier_shifts (snd (endShift s sid cc nts now)) = cashier_shifts s \<or>
   (\<exists>c. numeric_opt cc = Inr c \<and> fst (endShift s sid cc nts now) = Ok200 \<and>
      cashier_shifts (snd (endShift s sid cc nts now)) =
        map (\<lambda>sh. if shift_id sh = sid \<and> shift_end sh = None
                   then sh\<lparr>shift_end := Some now, closing_cash := c, shift_notes := nts\<rparr>
                   else sh) (cashier_shifts s))"
  by (auto simp: endShift_def split: sum.splits)

lemma active_after_close:
  "map user_id (filter (\<lambda>sh. shift_end sh = None)
     (map (\<lambda>sh. if shift_id sh = sid \<and> shift_end sh = None
                 then sh\<lparr>shift_end := Some now, closing_cash := c, shift_notes := nts\<rparr>
                 else sh) shs)) =
   map user_id (filter (\<lambda>sh. shift_id sh \<noteq> sid) (filter (\<lambda>sh. shift_end sh = None) shs))"
  by (induction shs) auto

lemma endShift_single_active:
  assumes "single_active_shift s"
  shows "single_active_shift (snd (endShift s sid cc nts now))"
proof -
  have "distinct (map user_id (filter (\<lambda>sh. shift_id sh \<noteq> sid)
          (filter (\<lambda>sh. shift_end sh = None) (cashier_shifts s))))"
    using assms unfolding single_active_shift_def by (rule distinct_map_filter)
  with endShift_rows [of s sid cc nts now] assms show ?thesis
    unfolding single_active_shift_def by (auto simp: active_after_close simp del: filter_filter)
qed

lemma startShift_cases:
  "(active_shifts s uid \<noteq> [] \<and> startShift s uid oc = (BadRequest400, s)) \<or>
   (active_shifts s uid = [] \<and> startShift s uid oc = (ServerError500, s)) \<or>
   (active_shifts s uid = [] \<and> (\<exists>x. oc = Some x \<and> fits_10_2 (to_cents x) \<and> uid \<in> set (users s) \<and>
      startShift s uid oc =
        (Created201,
         s\<lparr>cashier_shifts := cashier_shifts s @
              [\<lparr>shift_id = shifts_seq s + 1, user_id = uid, shift_end = None,
                opening_cash = to_cents x, closing_cash = None, cash_in = 0, cash_out = 0,
                sales_amount_cash = 0, sales_amount_card = 0, shift_notes = None,
                reconciled = False\<rparr>],
            shifts_seq := shifts_seq s + 1\<rparr>)))"
  by (auto simp: startShift_def insert_shift_def numeric_10_2_def Let_def
      split: option.splits sum.splits)

lemma startShift_single_active:
  assumes "single_active_shift s"
  shows "single_active_shift (snd (startShift s uid oc))"
proof -
  have "uid \<notin> user_id ` set (filter (\<lambda>sh. shift_end sh = None) (cashier_shifts s))"
    if "active_shifts s uid = []"
    using that by (auto simp: active_shifts_def filter_empty_conv)
  with startShift_cases [of s uid oc] assms show ?thesis
    by (auto simp: single_active_shift_def)
qed

lemma single_active_shift_step:
  "single_active_shift s \<Longrightarrow> single_active_shift (step s x)"
proof (cases x)
  case (CreateOrder req)
  assume "single_active_shift s"
  with CreateOrder show ?thesis by (simp add: single_active_shift_def)
next
  case (UpdateOrder oid req)
  assume "single_active_shift s"
  with UpdateOrder show ?thesis by (simp add: single_active_shift_def)
next
  case (SetOrderStatus oid st)
  assume "single_active_shift s"
  with SetOrderStatus show ?thesis by (simp add: single_active_shift_def)
next
  case (RecordPayment c req)
  assume "single_active_shift s"
  with RecordPayment show ?thesis
    by (simp add: single_active_shift_keys [OF recordPayment_keys])
next
  case (StartShift uid oc)
  assume "single_active_shift s"
  with StartShift show ?thesis by (simp add: startShift_single_active)
next
  case (EndShift sid cc nts now)
  assume "single_active_shift s"
  with EndShift show ?thesis by (simp add: endShift_single_active)
next
  case (AdjustShift sid req)
  assume "single_active_shift s"
  with AdjustShift show ?thesis
    by (simp add: single_active_shift_keys [OF adjustShift_keys])
qed

lemma single_active_shift_run:
  "single_active_shift s \<Longrightarrow> single_active_shift (run s ops)"
  unfolding run_def
  by (induction ops arbitrary: s) (simp_all add: single_active_shift_step)

text \<open>The running sales totals never go below zero.\<close>

lemma sales_nonneg_step: "sales_nonneg s \<Longrightarrow> sales_nonneg (step s x)"
proof (cases x)
  case (RecordPayment c req)
  assume n: "sales_nonneg s"
  have "0 \<le> to_cents (of_cents k + pr_amount req)"
    if "0 \<le> k" "0 < to_cents (pr_amount req)" for k
  proof -
    from that(2) have "0 < pr_amount req" by (rule to_cents_pos_imp)
    with that(1) have "0 \<le> of_cents k + pr_amount req" by (simp add: of_cents_def)
    then show ?thesis by (rule to_cents_nonneg)
  qed
  with n recordPayment_shift_rows [of c s req] RecordPayment show ?thesis
    by (auto simp: sales_nonneg_def list_all_iff bump_sales_def)
next
  case (StartShift uid oc)
  assume "sales_nonneg s"
  with startShift_cases [of s uid oc] StartShift show ?thesis
    by (auto simp: sales_nonneg_def)
next
  case (EndShift sid cc nts now)
  assume "sales_nonneg s"
  with endShift_rows [of s sid cc nts now] EndShift show ?thesis
    by (auto simp: sales_nonneg_def list_all_iff)
next
  case (AdjustShift sid req)
  assume "sales_nonneg s"
  with AdjustShift show ?thesis
    by (auto simp: sales_nonneg_def list_all_iff adjustShift_def split: sum.splits)
qed (simp_all add: sales_nonneg_def)

lemma sales_nonneg_run:
  "sales_nonneg s \<Longrightarrow> sales_nonneg (run s ops)"
  unfolding run_def
  by (induction ops arbitrary: s) (simp_all add: sales_nonneg_step)

text \<open>
  C8. From a database in which no user has two active shifts (one without shifts, for
  instance), no sequence of requests to the handlers leads to one in which a user has:
  \<^verbatim>\<open>startShift\<close> answers 400 and changes nothing when the user has an active shift, and
  otherwise (the user exists and the opening cash fits the column) appends an active
  shift with the given opening cash and both sales totals 0; \<^verbatim>\<open>endShift\<close> changes only
  rows of the given id whose \<^verbatim>\<open>shift_end\<close> is NULL, and closes them.
\<close>

theorem single_active_shift_invariant:
  "(single_active_shift s \<longrightarrow> single_active_shift (run s ops))
   \<and> (single_active_shift s \<longleftrightarrow> (\<forall>u. length (active_shifts s u) \<le> 1))
   \<and> (cashier_shifts s = [] \<longrightarrow> single_active_shift s)
   \<and> (active_shifts s uid \<noteq> [] \<longrightarrow> startShift s uid oc = (BadRequest400, s))
   \<and> (startShift s uid oc = (Created201, s') \<longrightarrow>
        active_shifts s uid = [] \<and>
        (\<exists>x. oc = Some x \<and>
           s' = s\<lparr>cashier_shifts := cashier_shifts s @
                    [\<lparr>shift_id = shifts_seq s + 1, user_id = uid, shift_end = None,
                      opening_cash = to_cents x, closing_cash = None, cash_in = 0,
                      cash_out = 0, sales_amount_cash = 0, sales_amount_card = 0,
                      shift_notes = None, reconciled = False\<rparr>],
                  shifts_seq := shifts_seq s + 1\<rparr>))
   \<and> (active_shifts s uid = [] \<and> oc = Some x \<and> fits_10_2 (to_cents x) \<and> uid \<in> set (users s)
        \<longrightarrow> fst (startShift s uid oc) = Created201)
   \<and> length (cashier_shifts (snd (endShift s sid cc nts now))) = length (cashier_shifts s)
   \<and> (\<forall>i < length (cashier_shifts s).
        cashier_shifts (snd (endShift s sid cc nts now)) ! i \<noteq> cashier_shifts s ! i \<longrightarrow>
          shift_id (cashier_shifts s ! i) = sid \<and> shift_end (cashier_shifts s ! i) = None \<and>
          shift_end (cashier_shifts (snd (endShift s sid cc nts now)) ! i) = Some now)"
proof -
  have 1: "single_active_shift s \<longrightarrow> single_active_shift (run s ops)"
    by (simp add: single_active_shift_run)
  have 2: "single_active_shift s \<longleftrightarrow> (\<forall>u. length (active_shifts s u) \<le> 1)"
    by (rule single_active_shift_iff)
  have 3: "cashier_shifts s = [] \<longrightarrow> single_active_shift s"
    by (simp add: single_active_shift_def)
  have 4: "active_shifts s uid \<noteq> [] \<longrightarrow> startShift s uid oc = (BadRequest400, s)"
    by (simp add: startShift_def)
  have 5: "startShift s uid oc = (Created201, s') \<longrightarrow>
        active_shifts s uid = [] \<and>
        (\<exists>x. oc = Some x \<and>
           s' = s\<lparr>cashier_shifts := cashier_shifts s @
                    [\<lparr>shift_id = shifts_seq s + 1, user_id = uid, shift_end = None,
                      opening_cash = to_cents x, closing_cash = None, cash_in = 0,
                      cash_out = 0, sales_amount_cash = 0, sales_amount_card = 0,
                      shift_notes = None, reconciled = False\<rparr>],
                  shifts_seq := shifts_seq s + 1\<rparr>)"
    using startShift_cases [of s uid oc] by auto
  have 6: "active_shifts s uid = [] \<and> oc = Some x \<and> fits_10_2 (to_cents x) \<and> uid \<in> set (users s)
        \<longrightarrow> fst (startShift s uid oc) = Created201"
    by (simp add: startShift_def insert_shift_def numeric_10_2_def Let_def)
  have 7: "length (cashier_shifts (snd (endShift s sid cc nts now))) = length (cashier_shifts s)"
    using endShift_rows [of s sid cc nts now] by auto
  have 8: "\<forall>i < length (cashier_shifts s).
        cashier_shifts (snd (endShift s sid cc nts now)) ! i \<noteq> cashier_shifts s ! i \<longrightarrow>
          shift_id (cashier_shifts s ! i) = sid \<and> shift_end (cashier_shifts s ! i) = None \<and>
          shift_end (cashier_shifts (snd (endShift s sid cc nts now)) ! i) = Some now"
    using endShift_rows [of s sid cc nts now] by (auto split: if_splits)
  from 1 2 3 4 5 6 7 8 show ?thesis by (intro conjI)
qed

theorem single_active_shift_invariant_witness:
  "single_active_shift db3
   \<and> single_active_shift
        (run db3 [StartShift 1 (Some 50), StartShift 2 (Some 20),
                  EndShift 1 (Some 120) None 500, StartShift 1 (Some 10)])
   \<and> map (\<lambda>sh. (shift_id sh, user_id sh, shift_end sh))
        (cashier_shifts
          (run db3 [StartShift 1 (Some 50), StartShift 2 (Some 20),
                    EndShift 1 (Some 120) None 500, StartShift 1 (Some 10)]))
       = [(1, 1, Some 500), (2, 2, None), (3, 1, None)]
   \<and> cashier_shifts db1 = [] \<and> single_active_shift db1
   \<and> active_shifts db3 1 \<noteq> []
   \<and> startShift db3 1 (Some 50) = (BadRequest400, db3)
   \<and> active_shifts db3 2 = []
   \<and> fits_10_2 (to_cents 20) \<and> 2 \<in> set (users db3)
   \<and> startShift db3 2 (Some 20) =
       (Created201,
        db3\<lparr>cashier_shifts := cashier_shifts db3 @
              [\<lparr>shift_id = 2, user_id = 2, shift_end = None, opening_cash = 2000,
                closing_cash = None, cash_in = 0, cash_out = 0, sales_amount_cash = 0,
                sales_amount_card = 0, shift_notes = None, reconciled = False\<rparr>],
            shifts_seq := 2\<rparr>)
   \<and> map shift_end (cashier_shifts (snd (endShift db3 1 (Some 120) None 500))) = [Some 500]
   \<and> snd (endShift (snd (endShift db3 1 (Some 120) None 500)) 1 (Some 130) None 600)
       = snd (endShift db3 1 (Some 120) None 500)"
  using
    single_active_shift_invariant [of db3
      "[StartShift 1 (Some 50), StartShift 2 (Some 20), EndShift 1 (Some 120) None 500,
        StartShift 1 (Some 10)]" 1 "Some 50" db3 50 1 "Some 120" None 500, THEN conjunct1]
    single_active_shift_invariant [of db1 "[]" 1 "Some 50" db1 50 1 "Some 120" None 500]
    single_active_shift_invariant [of db3 "[]" 2 "Some 20"
      "snd (startShift db3 2 (Some 20))" 20 1 "Some 120" None 500]
  by (simp add: db3_eq db1_eq run_def shift_defs money_defs sample_defs single_active_shift_def)

end
